theory Spec2Isabelle
  imports Main "HOL-Library.Sublist"
begin

section \<open>Contract verification: build records, import closure, trimming, submission\<close>

text \<open>
  A shallow embedding of the \<^verbatim>\<open>Verifier\<close> class. JavaScript exceptions are values of
  \<open>error\<close>: \<open>Error m\<close> is \<^verbatim>\<open>throw new Error(m)\<close>, \<open>TypeError m\<close> is the runtime
  error raised by reading a property of \<^verbatim>\<open>null\<close> or \<^verbatim>\<open>undefined\<close>, or by
  calling a value that is not a function.
  A function that may throw returns \<open>error + 'a\<close>.
\<close>

datatype error = Error string | TypeError string

subsection \<open>Data model\<close>

text \<open>
  A JavaScript object used as a dictionary is an association list in \<^verbatim>\<open>Object.keys\<close>
  order; every key occurs once. Strings are sequences of 8-bit code units. Records carry the
  field names of the source; a field whose name two records share, or that the code also uses
  as a parameter name, has a prefix (\<open>buildInfo_input\<close>, \<open>sf_content\<close>, \<open>ci_\<close>, \<open>fqn_\<close>).
\<close>

type_synonym LibraryLinks = "(string \<times> (string \<times> string) list) list"

record Source =
  content :: string

record Settings =
  optimizer_enabled :: bool
  optimizer_runs :: nat
  libraries :: LibraryLinks

record CompilerInput =
  language :: string
  sources :: "(string \<times> Source) list"
  settings :: Settings

text \<open>
  The Solidity parser is an external package. \<^verbatim>\<open>parser.parse\<close> followed by
  \<^verbatim>\<open>parser.visit\<close> with an \<^verbatim>\<open>ImportDirective\<close> callback is a parameter of the model: it
  maps a source text to the \<^verbatim>\<open>path\<close> fields of its import directives, in visiting order,
  or throws.
\<close>

type_synonym parser = "string \<Rightarrow> error + string list"

subsection \<open>Strings and the file-name pattern\<close>

text \<open>\<^verbatim>\<open>s.includes(t)\<close>: \<open>t\<close> occurs in \<open>s\<close> as a contiguous substring.\<close>

fun String_includes :: "string \<Rightarrow> string \<Rightarrow> bool" where
  "String_includes [] t = (t = [])"
| "String_includes (c # cs) t = (prefix t (c # cs) \<or> String_includes cs t)"

text \<open>The class \<^verbatim>\<open>\w\<close> is \<^verbatim>\<open>[A-Za-z0-9_]\<close>; \<^verbatim>\<open>.\<close> matches every code unit but a line terminator.\<close>

definition isWordChar :: "char \<Rightarrow> bool" where
  "isWordChar c =
     (let n = of_char c :: nat
      in (65 \<le> n \<and> n \<le> 90) \<or> (97 \<le> n \<and> n \<le> 122) \<or> (48 \<le> n \<and> n \<le> 57) \<or> n = 95)"

definition isLineTerminator :: "char \<Rightarrow> bool" where
  "isLineTerminator c = (of_char c = (10::nat) \<or> of_char c = (13::nat))"

text \<open>
  \<^verbatim>\<open>(\w*)\.sol\<close> tried right after a slash: the greedy \<^verbatim>\<open>\w*\<close> takes the longest run of word
  characters, and giving characters back never helps, since the next one is then a word character
  and not a dot.
\<close>

definition fileNameAfterSlash :: "string \<Rightarrow> string option" where
  "fileNameAfterSlash t =
     (if prefix ''.sol'' (dropWhile isWordChar t) then Some (takeWhile isWordChar t) else None)"

text \<open>
  Within one line, the greedy \<^verbatim>\<open>.*\<close> backtracks from the end of the line, so the slash that is
  used is the last one after which \<^verbatim>\<open>(\w*)\.sol\<close> matches.
\<close>

fun lastSlashMatch :: "string \<Rightarrow> string option" where
  "lastSlashMatch [] = None"
| "lastSlashMatch (c # cs) =
     (case lastSlashMatch cs of
        Some w \<Rightarrow> Some w
      | None \<Rightarrow> if c = CHR ''/'' then fileNameAfterSlash cs else None)"

text \<open>
  \<^verbatim>\<open>relativeSourcePath.match(/.*\/(\w*)\.sol/)\<close>: capture group 1 of the leftmost match, or
  \<open>None\<close> for \<^verbatim>\<open>null\<close>. A match never crosses a line terminator, and start positions are
  tried from the left, so the first line that has a match decides.
\<close>

function matchSolFileName :: "string \<Rightarrow> string option" where
  "matchSolFileName s =
     (case lastSlashMatch (takeWhile (\<lambda>c. \<not> isLineTerminator c) s) of
        Some w \<Rightarrow> Some w
      | None \<Rightarrow>
          (case dropWhile (\<lambda>c. \<not> isLineTerminator c) s of
             [] \<Rightarrow> None
           | _ # rest \<Rightarrow> matchSolFileName rest))"
  by pat_completeness auto
termination
proof (relation "measure length")
  fix s :: string and x21 x22
  assume "dropWhile (\<lambda>c. \<not> isLineTerminator c) s = x21 # x22"
  moreover have "length (dropWhile (\<lambda>c. \<not> isLineTerminator c) s) \<le> length s"
    by (rule length_dropWhile_le)
  ultimately show "(x22, s) \<in> measure length" by simp
qed simp

declare matchSolFileName.simps [simp del]

subsection \<open>Import Graph Resolver\<close>

text \<open>
  \<^verbatim>\<open>getContractSourceName\<close>: the first key of \<^verbatim>\<open>input.sources\<close> that contains
  \<^verbatim>\<open>/<contractName>.sol\<close>.
\<close>

definition getContractSourceName :: "string \<Rightarrow> CompilerInput \<Rightarrow> error + string" where
  "getContractSourceName contractName input =
     (case find (\<lambda>absoluteSourcePath.
                   String_includes absoluteSourcePath (''/'' @ contractName @ ''.sol''))
             (map fst (sources input)) of
        None \<Rightarrow> Inl (Error (''Could not find source name for '' @ contractName))
      | Some absoluteSourcePath \<Rightarrow> Inr absoluteSourcePath)"

text \<open>
  \<^verbatim>\<open>getAbsoluteSourcePath\<close>: the result of \<^verbatim>\<open>match\<close> is cast to a match array and indexed;
  on \<^verbatim>\<open>null\<close> the index raises a TypeError.
\<close>

definition getAbsoluteSourcePath :: "string \<Rightarrow> CompilerInput \<Rightarrow> error + string" where
  "getAbsoluteSourcePath relativeSourcePath input =
     (case matchSolFileName relativeSourcePath of
        None \<Rightarrow> Inl (TypeError ''Cannot read properties of null (reading '1')'')
      | Some contractName \<Rightarrow> getContractSourceName contractName input)"

text \<open>
  A JavaScript \<^verbatim>\<open>Set\<close> keeps its elements in insertion order, each once.
  \<^verbatim>\<open>new Set(s).add(x)\<close> copies, so the caller's set is untouched.
\<close>

definition Set_add :: "string list \<Rightarrow> string \<Rightarrow> string list" where
  "Set_add s x = (if x \<in> set s then s else s @ [x])"

text \<open>
  Resolution only ever yields keys of \<^verbatim>\<open>input.sources\<close>. The measure of the traversal is the
  number of keys not yet in the set, then the number of import paths still to visit.
\<close>

lemma getContractSourceName_key:
  "getContractSourceName c input = Inr p \<Longrightarrow> p \<in> fst ` set (sources input)"
  by (auto simp: getContractSourceName_def find_Some_iff split: option.splits)

lemma getAbsoluteSourcePath_key:
  "getAbsoluteSourcePath path input = Inr p \<Longrightarrow> p \<in> fst ` set (sources input)"
  by (auto simp: getAbsoluteSourcePath_def split: option.splits dest: getContractSourceName_key)

definition closureMeasure ::
  "(parser \<times> string \<times> CompilerInput \<times> string list) +
   (parser \<times> string list \<times> CompilerInput \<times> string list) \<Rightarrow> nat \<times> nat" where
  "closureMeasure c =
     (case c of
        Inl (parse, n, input, prev) \<Rightarrow>
          (card (fst ` set (sources input) - set prev),
           (case map_of (sources input) n of
              None \<Rightarrow> 0
            | Some src \<Rightarrow> (case parse (content src) of Inl e \<Rightarrow> 0 | Inr ps \<Rightarrow> Suc (length ps))))
      | Inr (parse, ps, input, prev) \<Rightarrow>
          (card (fst ` set (sources input) - set prev), length ps))"

lemma card_unvisited_less:
  "p \<in> fst ` set (sources input) \<Longrightarrow> p \<notin> set prev \<Longrightarrow>
     card (fst ` set (sources input) - set (Set_add prev p))
       < card (fst ` set (sources input) - set prev)"
  by (rule psubset_card_mono) (auto simp: Set_add_def)

lemma card_unvisited_le:
  "set prev \<subseteq> set r \<Longrightarrow>
     card (fst ` set (sources input) - set r) \<le> card (fst ` set (sources input) - set prev)"
  by (rule card_mono) auto

text \<open>
  \<^verbatim>\<open>getContractImportedSourceNames\<close>. The visitor callback runs once per import directive
  and reassigns \<^verbatim>\<open>previousSourceNames\<close>; \<open>visitImportDirectives\<close> is that iteration.
  \<^verbatim>\<open>input.sources[sourceName]\<close> is \<^verbatim>\<open>undefined\<close> for a missing key, and reading its
  \<^verbatim>\<open>content\<close> raises.
\<close>

function getContractImportedSourceNames ::
    "parser \<Rightarrow> string \<Rightarrow> CompilerInput \<Rightarrow> string list \<Rightarrow> error + string list"
  and visitImportDirectives ::
    "parser \<Rightarrow> string list \<Rightarrow> CompilerInput \<Rightarrow> string list \<Rightarrow> error + string list"
where
  "getContractImportedSourceNames parse sourceName input previousSourceNames =
     (case map_of (sources input) sourceName of
        None \<Rightarrow> Inl (TypeError ''Cannot read properties of undefined (reading 'content')'')
      | Some src \<Rightarrow>
          (case parse (content src) of
             Inl e \<Rightarrow> Inl e
           | Inr paths \<Rightarrow> visitImportDirectives parse paths input previousSourceNames))"
| "visitImportDirectives parse [] input previousSourceNames = Inr previousSourceNames"
| "visitImportDirectives parse (path # paths) input previousSourceNames =
     (case getAbsoluteSourcePath path input of
        Inl e \<Rightarrow> Inl e
      | Inr importedSourceName \<Rightarrow>
          if importedSourceName \<in> set previousSourceNames
          then visitImportDirectives parse paths input previousSourceNames
          else
            (case getContractImportedSourceNames parse importedSourceName input
                    (Set_add previousSourceNames importedSourceName) of
               Inl e \<Rightarrow> Inl e
             | Inr previousSourceNames' \<Rightarrow>
                 visitImportDirectives parse paths input previousSourceNames'))"
  by pat_completeness auto

termination
proof -
  have mono:
    "getContractImportedSourceNames_visitImportDirectives_dom (Inl (parse, n, input, prev)) \<Longrightarrow>
       getContractImportedSourceNames parse n input prev = Inr r \<Longrightarrow> set prev \<subseteq> set r"
    "getContractImportedSourceNames_visitImportDirectives_dom (Inr (parse, ps, input, prev)) \<Longrightarrow>
       visitImportDirectives parse ps input prev = Inr r \<Longrightarrow> set prev \<subseteq> set r"
    for parse :: parser and n ps and input :: CompilerInput and prev r
  proof (induction parse n input prev and parse ps input prev arbitrary: r and r
         rule: getContractImportedSourceNames_visitImportDirectives.pinduct)
    case (1 parse sourceName input previousSourceNames)
    then show ?case
      by (auto simp: getContractImportedSourceNames.psimps split: option.splits sum.splits)
  next
    case (2 parse input previousSourceNames)
    then show ?case by (simp add: visitImportDirectives.psimps)
  next
    case (3 parse path paths input previousSourceNames)
    then show ?case
      by (auto simp: visitImportDirectives.psimps Set_add_def split: sum.splits if_splits) blast+
  qed
  show ?thesis
  proof (relation "inv_image (less_than <*lex*> less_than) closureMeasure")
    show "wf (inv_image (less_than <*lex*> less_than) closureMeasure)"
      by (intro wf_inv_image wf_lex_prod wf_less_than)
  next
    fix parse :: parser and sourceName and input :: CompilerInput and previousSourceNames x2 b
    assume "map_of (sources input) sourceName = Some x2" "parse (content x2) = Inr b"
    then show "(Inr (parse, b, input, previousSourceNames),
                Inl (parse, sourceName, input, previousSourceNames))
          \<in> inv_image (less_than <*lex*> less_than) closureMeasure"
      by (simp add: closureMeasure_def)
  next
    fix parse :: parser and path paths and input :: CompilerInput and previousSourceNames
    show "(Inr (parse, paths, input, previousSourceNames),
           Inr (parse, path # paths, input, previousSourceNames))
          \<in> inv_image (less_than <*lex*> less_than) closureMeasure"
      by (simp add: closureMeasure_def)
  next
    fix parse :: parser and path paths and input :: CompilerInput and previousSourceNames b
    assume "getAbsoluteSourcePath path input = Inr b" "b \<notin> set previousSourceNames"
    then show "(Inl (parse, b, input, Set_add previousSourceNames b),
                Inr (parse, path # paths, input, previousSourceNames))
          \<in> inv_image (less_than <*lex*> less_than) closureMeasure"
      by (simp add: closureMeasure_def card_unvisited_less getAbsoluteSourcePath_key)
  next
    fix parse :: parser and path paths and input :: CompilerInput and previousSourceNames b ba
    assume "getContractImportedSourceNames parse b input (Set_add previousSourceNames b) = Inr ba"
      "getContractImportedSourceNames_visitImportDirectives_dom
         (Inl (parse, b, input, Set_add previousSourceNames b))"
    then have "set (Set_add previousSourceNames b) \<subseteq> set ba"
      using mono(1) by blast
    then have "set previousSourceNames \<subseteq> set ba"
      by (auto simp: Set_add_def split: if_splits)
    from card_unvisited_le[OF this, of input]
    show "(Inr (parse, paths, input, ba), Inr (parse, path # paths, input, previousSourceNames))
          \<in> inv_image (less_than <*lex*> less_than) closureMeasure"
      by (auto simp add: closureMeasure_def)
  qed
qed

declare getContractImportedSourceNames.simps [simp del]

text \<open>
  \<^verbatim>\<open>obj[k] = v\<close> on a dictionary: an existing key keeps its place, a new key goes last.
  \<^verbatim>\<open>Object.assign(target, source)\<close> sets every entry of \<open>source\<close> on \<open>target\<close>.
\<close>

fun Object_set :: "'k \<Rightarrow> 'v \<Rightarrow> ('k \<times> 'v) list \<Rightarrow> ('k \<times> 'v) list" where
  "Object_set k v [] = [(k, v)]"
| "Object_set k v ((k', v') # kvs) =
     (if k' = k then (k, v) # kvs else (k', v') # Object_set k v kvs)"

definition Object_assign :: "('k \<times> 'v) list \<Rightarrow> ('k \<times> 'v) list \<Rightarrow> ('k \<times> 'v) list" where
  "Object_assign target source = fold (\<lambda>(k, v). Object_set k v) source target"

text \<open>
  The \<^verbatim>\<open>sources\<close> expression of \<^verbatim>\<open>trimmedBuildInfoInput\<close>: the keys, filtered by membership
  in the set, each mapped to a one-entry object, all reduced with \<^verbatim>\<open>Object.assign\<close> from
  the empty object. Every key comes from \<^verbatim>\<open>Object.keys\<close>, so its lookup succeeds.
\<close>

definition trimmedSources :: "string list \<Rightarrow> (string \<times> Source) list \<Rightarrow> (string \<times> Source) list" where
  "trimmedSources importedSourceNames srcs =
     foldl Object_assign []
       (List.map_filter (\<lambda>source. map_option (\<lambda>v. [(source, v)]) (map_of srcs source))
          (filter (\<lambda>source. source \<in> set importedSourceNames) (map fst srcs)))"

definition trimmedBuildInfoInput :: "parser \<Rightarrow> string \<Rightarrow> CompilerInput \<Rightarrow> error + CompilerInput" where
  "trimmedBuildInfoInput parse contractName input =
     (case getContractSourceName contractName input of
        Inl e \<Rightarrow> Inl e
      | Inr sourceName \<Rightarrow>
          (case getContractImportedSourceNames parse sourceName input (Set_add [] sourceName) of
             Inl e \<Rightarrow> Inl e
           | Inr importedSourceNames \<Rightarrow>
               Inr (input\<lparr>sources := trimmedSources importedSourceNames (sources input)\<rparr>)))"

subsection \<open>Artifact Index\<close>

record FullyQualifiedName =
  fqn_sourceName :: string
  fqn_contractName :: string

record BuildInfo =
  solcVersion :: string
  buildInfo_input :: CompilerInput
  output_contracts :: "(FullyQualifiedName \<times> string) list"

text \<open>
  Modelled from the spec: \<^verbatim>\<open>getAllFullyQualifiedNames\<close> lives in \<^verbatim>\<open>./buildinfo\<close>, which is not
  among the sources. The build record holds a "mapping from (source path, contract name) to
  compiled contract metadata"; the function lists the locators of that mapping.
\<close>

definition getAllFullyQualifiedNames :: "BuildInfo \<Rightarrow> FullyQualifiedName list" where
  "getAllFullyQualifiedNames buildInfo = map fst (output_contracts buildInfo)"

definition containsContract :: "string \<Rightarrow> BuildInfo \<Rightarrow> bool" where
  "containsContract contractName buildInfo =
     list_ex (\<lambda>name. fqn_contractName name = contractName) (getAllFullyQualifiedNames buildInfo)"

text \<open>
  \<^verbatim>\<open>Array.prototype.find\<close> returns a reference to the element itself. The caller assigns
  to a field of the record found, so the reference is kept: it is the position in the array.
\<close>

fun Array_findRef :: "('a \<Rightarrow> bool) \<Rightarrow> 'a list \<Rightarrow> nat option" where
  "Array_findRef P [] = None"
| "Array_findRef P (x # xs) =
     (if P x then Some 0 else map_option Suc (Array_findRef P xs))"

definition findBuildInfoWithContract :: "BuildInfo list \<Rightarrow> string \<Rightarrow> error + nat" where
  "findBuildInfoWithContract buildInfos contractName =
     (case Array_findRef (containsContract contractName) buildInfos of
        None \<Rightarrow> Inl (Error (''Could not find a build info for contract '' @ contractName))
      | Some found \<Rightarrow> Inr found)"

subsection \<open>Effects: the world, its events and the external collaborators\<close>

record ContractInformation =
  ci_sourceName :: string
  ci_contractName :: string
  ci_solcVersion :: string
  ci_abi :: string
  ci_libraryLinks :: LibraryLinks

text \<open>Constructor arguments are given already encoded, as a string, or as raw values.\<close>

datatype ConstructorArguments = EncodedString string | RawValues "string list"

record SourceFile =
  sf_content :: string
  file_name :: string

record Request =
  contract_address :: string
  source_code :: "SourceFile list"
  contract_name :: string
  version :: string
  args :: ConstructorArguments
  optimization :: bool
  runs :: nat
  compiler_type :: string

text \<open>
  The object that \<^verbatim>\<open>axios.post\<close> resolves to. \<^verbatim>\<open>verifyContract\<close> returns it as it
  is (the lines that wrapped it in an \<^verbatim>\<open>EtherscanResponse\<close> are commented out), and
  \<^verbatim>\<open>attemptVerification\<close> and \<^verbatim>\<open>verify\<close> hand it on to \<^verbatim>\<open>call\<close>. Of its
  properties the code reads \<^verbatim>\<open>data.success\<close>, \<^verbatim>\<open>status\<close> and the text of \<^verbatim>\<open>data\<close>.
\<close>

record AxiosResponse =
  data_success :: bool
  status :: nat
  data_text :: string

text \<open>
  An axios response has the properties \<^verbatim>\<open>data\<close>, \<^verbatim>\<open>status\<close>, \<^verbatim>\<open>statusText\<close>,
  \<^verbatim>\<open>headers\<close>, \<^verbatim>\<open>config\<close> and \<^verbatim>\<open>request\<close>, and no method of its own. So
  \<^verbatim>\<open>response.isVerificationSuccess\<close> and \<^verbatim>\<open>response.isBytecodeMissingInNetworkError\<close>
  are \<^verbatim>\<open>undefined\<close>, and calling either raises a \<^verbatim>\<open>TypeError\<close>;
  \<^verbatim>\<open>response.message\<close> is \<^verbatim>\<open>undefined\<close>, which a template literal prints as that word.
\<close>

definition isVerificationSuccess :: "AxiosResponse \<Rightarrow> error + bool" where
  "isVerificationSuccess response =
     Inl (TypeError ''response.isVerificationSuccess is not a function'')"

definition isBytecodeMissingInNetworkError :: "AxiosResponse \<Rightarrow> error + bool" where
  "isBytecodeMissingInNetworkError response =
     Inl (TypeError ''response.isBytecodeMissingInNetworkError is not a function'')"

definition message :: "AxiosResponse \<Rightarrow> string" where
  "message response = ''undefined''"

text \<open>
  A rejected post: the text printed for the error, and \<^verbatim>\<open>error.response.data.message\<close> when
  the error carries a response.
\<close>

record PostError =
  error_text :: string
  response_data_message :: "string option"

text \<open>The text that \<^verbatim>\<open>JSON.stringify(req)\<close> yields, kept abstract.\<close>

datatype JsonText = JSON_stringify Request

datatype Awaiting = Awaited | NotAwaited

datatype event =
    Delay nat Awaiting
  | RetrieveContractBytecode string
  | WriteFileSync string JsonText
  | AxiosPost string Request
  | ConsoleLog "string list"

text \<open>
  The outcomes of the external calls of one run of \<^verbatim>\<open>verify\<close>: the network provider, the
  build artifact store, the helpers of the etherscan plugin and of \<^verbatim>\<open>./buildinfo\<close>, the
  file system and the verification service.
\<close>

record Externals =
  retrieveContractBytecode_result :: "error + string"
  getBuildInfos_result :: "error + BuildInfo list"
  findContractSourceName_result :: "error + string"
  extractMatchingContractInformation_result :: "error + ContractInformation option"
  getLibraryLinks_result :: "error + LibraryLinks"
  encodeArguments_result :: "error + string"
  getLongVersion_result :: "error + string"
  writeFileSync_result :: "error option"
  axios_post_result :: "PostError + AxiosResponse"

text \<open>
  The world: how many times \<^verbatim>\<open>verify\<close> has been entered, the events so far, the files
  written, and the array of build records that the last \<^verbatim>\<open>getBuildInfos\<close> produced. A
  record of that array is referred to by its position, and an assignment to one of its fields
  updates the array in place.
\<close>

record World =
  attempts :: nat
  trace :: "event list"
  files :: "string \<rightharpoonup> JsonText"
  loaded :: "BuildInfo list"

type_synonym 'a io = "World \<Rightarrow> (error + 'a) \<times> World"

definition bind :: "'a io \<Rightarrow> ('a \<Rightarrow> 'b io) \<Rightarrow> 'b io" where
  "bind m f w = (case m w of (Inl e, w') \<Rightarrow> (Inl e, w') | (Inr x, w') \<Rightarrow> f x w')"

definition return :: "'a \<Rightarrow> 'a io" where
  "return x w = (Inr x, w)"

definition throw :: "error \<Rightarrow> 'a io" where
  "throw e w = (Inl e, w)"

definition external :: "error + 'a \<Rightarrow> 'a io" where
  "external r w = (r, w)"

definition emit :: "event \<Rightarrow> unit io" where
  "emit e w = (Inr (), w\<lparr>trace := trace w @ [e]\<rparr>)"

definition delay :: "nat \<Rightarrow> Awaiting \<Rightarrow> unit io" where
  "delay milliseconds a = emit (Delay milliseconds a)"

definition console_log :: "string list \<Rightarrow> unit io" where
  "console_log xs = emit (ConsoleLog xs)"

text \<open>\<^verbatim>\<open>logger.info\<close> spreads its argument: a string is logged character by character.\<close>

definition logger_info :: "string \<Rightarrow> unit io" where
  "logger_info xs = console_log (map (\<lambda>c. [c]) xs)"

fun showNat :: "nat \<Rightarrow> string" where
  "showNat n =
     (if n < 10 then [char_of (48 + n)] else showNat (n div 10) @ [char_of (48 + n mod 10)])"

declare showNat.simps [simp del]

definition showInt :: "int \<Rightarrow> string" where
  "showInt i = (if i < 0 then CHR ''-'' # showNat (nat (- i)) else showNat (nat i))"

definition MAX_VERIFICATION_INTENTS :: int where
  "MAX_VERIFICATION_INTENTS = 3"

subsection \<open>Verification Submitter\<close>

definition verifyContract :: "Externals \<Rightarrow> string \<Rightarrow> Request \<Rightarrow> AxiosResponse io" where
  "verifyContract ext url req =
     bind (\<lambda>w. case writeFileSync_result ext of
                 Some e \<Rightarrow> (Inl e, w)
               | None \<Rightarrow>
                   emit (WriteFileSync (''./'' @ contract_name req @ ''.json'') (JSON_stringify req))
                     (w\<lparr>files := (files w)(''./'' @ contract_name req @ ''.json'' \<mapsto> JSON_stringify req)\<rparr>))
       (\<lambda>_. bind (emit (AxiosPost url req))
       (\<lambda>_. case axios_post_result ext of
               Inl err \<Rightarrow>
                 bind (console_log [error_text err])
                   (\<lambda>_. case response_data_message err of
                           None \<Rightarrow> throw (TypeError ''Cannot read properties of undefined (reading 'data')'')
                         | Some m \<Rightarrow> throw (Error (''Failed to send verification request. Reason: '' @ m)))
             | Inr response \<Rightarrow>
                 if \<not> data_success response
                 then throw (Error (''Failed to send verification request.'' @ [CHR 0x0A]
                                @ ''HTTP code: '' @ showNat (status response) @ ''.'' @ [CHR 0x0A]
                                @ ''Response: '' @ data_text response))
                 else bind (console_log [''Verified!'']) (\<lambda>_. return response)))"

text \<open>
  \<^verbatim>\<open>attemptVerification\<close> receives a reference to the compiler input of the record found
  (\<open>found\<close> is its position) and assigns to \<^verbatim>\<open>settings.libraries\<close> of that object.
\<close>

definition attemptVerification ::
    "Externals \<Rightarrow> string \<Rightarrow> ContractInformation \<Rightarrow> string \<Rightarrow> nat \<Rightarrow> string
       \<Rightarrow> ConstructorArguments \<Rightarrow> AxiosResponse io" where
  "attemptVerification ext apiURL contractInformation contractAddress found solcFullVersion
       deployArgumentsEncoded =
     bind (\<lambda>w. let buildInfo = loaded w ! found;
                   compilerInput = buildInfo_input buildInfo;
                   compilerInput' = compilerInput
                     \<lparr>settings := (settings compilerInput)
                        \<lparr>libraries := ci_libraryLinks contractInformation\<rparr>\<rparr>
               in (Inr compilerInput',
                   w\<lparr>loaded := (loaded w)[found := buildInfo\<lparr>buildInfo_input := compilerInput'\<rparr>]\<rparr>))
       (\<lambda>compilerInput.
          let srcs = map (\<lambda>(name, src). \<lparr>sf_content = content src, file_name = name\<rparr>)
                       (sources compilerInput);
              request = \<lparr>contract_address = contractAddress,
                         source_code = srcs,
                         contract_name = ci_contractName contractInformation,
                         version = solcFullVersion,
                         args = deployArgumentsEncoded,
                         optimization = optimizer_enabled (settings compilerInput),
                         runs = optimizer_runs (settings compilerInput),
                         compiler_type = ''solidity''\<rparr>
          in bind (verifyContract ext apiURL request)
               (\<lambda>response. bind (delay 5000 Awaited) (\<lambda>_. return response)))"

definition apiURL :: string where
  "apiURL = ''https://beta-devnet-api.neonscan.org/contract/verify''"

definition browserURL :: string where
  "browserURL = ''https://neonscan.org''"

text \<open>
  \<^verbatim>\<open>verify\<close>. The record found is a position in the array just loaded; the assignment
  \<^verbatim>\<open>buildInfo.input = ...\<close> updates that record in place.
\<close>

definition verify ::
    "Externals \<Rightarrow> parser \<Rightarrow> string \<Rightarrow> string \<Rightarrow> ConstructorArguments \<Rightarrow> LibraryLinks
       \<Rightarrow> AxiosResponse io" where
  "verify ext parse name address theArgs theLibraries =
     bind (\<lambda>w. (Inr (), w\<lparr>attempts := Suc (attempts w)\<rparr>))
       (\<lambda>_. bind (delay 5000 Awaited)
       (\<lambda>_. bind (emit (RetrieveContractBytecode address))
       (\<lambda>_. bind (external (retrieveContractBytecode_result ext))
       (\<lambda>deployedBytecodeHex.
             bind (\<lambda>w. case getBuildInfos_result ext of
                         Inl e \<Rightarrow> (Inl e, w)
                       | Inr buildInfos \<Rightarrow> (Inr (), w\<lparr>loaded := buildInfos\<rparr>))
       (\<lambda>_. bind (\<lambda>w. (findBuildInfoWithContract (loaded w) name, w))
       (\<lambda>found.
             bind (\<lambda>w. case trimmedBuildInfoInput parse name (buildInfo_input (loaded w ! found)) of
                         Inl e \<Rightarrow> (Inl e, w)
                       | Inr trimmed \<Rightarrow>
                           (Inr (),
                            w\<lparr>loaded := (loaded w)
                                 [found := (loaded w ! found)\<lparr>buildInfo_input := trimmed\<rparr>]\<rparr>))
       (\<lambda>_. bind (external (findContractSourceName_result ext))
       (\<lambda>sourceName.
             bind (external (extractMatchingContractInformation_result ext))
       (\<lambda>matched.
             case matched of
               None \<Rightarrow> throw (Error ''Could not find a bytecode matching the requested contract'')
             | Some contractInformation \<Rightarrow>
                 bind (external (getLibraryLinks_result ext))
       (\<lambda>libraryLinks.
             bind (case theArgs of
                     EncodedString encoded \<Rightarrow> return encoded
                   | RawValues values \<Rightarrow> external (encodeArguments_result ext))
       (\<lambda>deployArgumentsEncoded.
             bind (external (getLongVersion_result ext))
       (\<lambda>solcFullVersion.
             attemptVerification ext apiURL
               (contractInformation\<lparr>ci_libraryLinks := libraryLinks\<rparr>)
               address found solcFullVersion theArgs))))))))))))"

text \<open>
  The text that \<^verbatim>\<open>new URL(input, base).toString()\<close> yields, kept abstract: the URL parser
  resolves dot segments and percent-encodes what it is given.
\<close>

datatype UrlText = URL_toString string string

definition contractURL :: "string \<Rightarrow> UrlText" where
  "contractURL address = URL_toString (''/address/'' @ address @ ''#code'') browserURL"

text \<open>
  \<^verbatim>\<open>call\<close>. \<open>externals k\<close> holds the outcomes of the external calls of the run of
  \<^verbatim>\<open>verify\<close> entered after \<open>k\<close> earlier ones. The two classification methods are called
  on the value that \<^verbatim>\<open>verify\<close> returned; an exception raised by such a call ends the run,
  and \<^verbatim>\<open>&&\<close> makes the second call only when the attempt number is below the maximum. The
  template literal evaluates \<^verbatim>\<open>intent++\<close> once, so the recursive call receives
  \<open>intent + 1\<close>; the \<^verbatim>\<open>delay(5000)\<close> before it is not awaited.
\<close>

function call ::
    "(nat \<Rightarrow> Externals) \<Rightarrow> parser \<Rightarrow> string \<Rightarrow> string \<Rightarrow> ConstructorArguments \<Rightarrow> LibraryLinks
       \<Rightarrow> int \<Rightarrow> World \<Rightarrow> (error + UrlText) \<times> World" where
  "call externals parse name address constructorArguments theLibraries intent w =
     (case verify (externals (attempts w)) parse name address constructorArguments theLibraries w of
        (Inl e, w') \<Rightarrow> (Inl e, w')
      | (Inr response, w') \<Rightarrow>
          (case isVerificationSuccess response of
             Inl e \<Rightarrow> (Inl e, w')
           | Inr True \<Rightarrow> (Inr (contractURL address), w')
           | Inr False \<Rightarrow>
               if intent < MAX_VERIFICATION_INTENTS
               then
                 (case isBytecodeMissingInNetworkError response of
                    Inl e \<Rightarrow> (Inl e, w')
                  | Inr True \<Rightarrow>
                      let (_, w1) = logger_info (''Could not find deployed bytecode in network, retrying ''
                                                    @ showInt intent @ ''/''
                                                    @ showInt MAX_VERIFICATION_INTENTS @ ''...'') w';
                          intent1 = intent + 1;
                          (_, w2) = delay 5000 NotAwaited w1
                      in call externals parse name address constructorArguments theLibraries intent1 w2
                  | Inr False \<Rightarrow>
                      (Inl (Error (''The contract verification failed. Reason: ''
                                     @ message response)), w'))
               else (Inl (Error (''The contract verification failed. Reason: ''
                                   @ message response)), w')))"
  by pat_completeness auto
termination
  by (relation "measure (\<lambda>(externals, parse, name, address, constructorArguments, theLibraries,
                            intent, w). nat (MAX_VERIFICATION_INTENTS - intent))")
     (auto simp: MAX_VERIFICATION_INTENTS_def)

declare call.simps [simp del]

subsection \<open>Vocabulary for the properties of runs\<close>

text \<open>
  The compiler input with \<^verbatim>\<open>settings.libraries\<close> replaced, and the request that
  \<^verbatim>\<open>attemptVerification\<close> assembles from it.
\<close>

definition linkedInput :: "LibraryLinks \<Rightarrow> CompilerInput \<Rightarrow> CompilerInput" where
  "linkedInput links input = input\<lparr>settings := (settings input)\<lparr>libraries := links\<rparr>\<rparr>"

definition requestOf ::
  "string \<Rightarrow> CompilerInput \<Rightarrow> string \<Rightarrow> string \<Rightarrow> ConstructorArguments \<Rightarrow> Request" where
  "requestOf contractAddress compilerInput contractName solcFullVersion deployArgumentsEncoded =
     \<lparr>contract_address = contractAddress,
      source_code = map (\<lambda>(name, src). \<lparr>sf_content = content src, file_name = name\<rparr>)
                      (sources compilerInput),
      contract_name = contractName,
      version = solcFullVersion,
      args = deployArgumentsEncoded,
      optimization = optimizer_enabled (settings compilerInput),
      runs = optimizer_runs (settings compilerInput),
      compiler_type = ''solidity''\<rparr>"

text \<open>
  \<open>chain ok prev evs\<close>: every event of \<open>evs\<close> is acceptable after the event just before it
  (\<open>prev\<close> before the first). A fetch of the deployed bytecode is acceptable right after a
  completed wait of 5 seconds; a post is acceptable right after the request was written to its file.
\<close>

fun chain :: "(event option \<Rightarrow> event \<Rightarrow> bool) \<Rightarrow> event option \<Rightarrow> event list \<Rightarrow> bool" where
  "chain ok prev [] = True"
| "chain ok prev (e # evs) = (ok prev e \<and> chain ok (Some e) evs)"

definition fetchAfterWait :: "event option \<Rightarrow> event \<Rightarrow> bool" where
  "fetchAfterWait prev e =
     (case e of RetrieveContractBytecode a \<Rightarrow> prev = Some (Delay 5000 Awaited) | _ \<Rightarrow> True)"

definition postAfterWrite :: "event option \<Rightarrow> event \<Rightarrow> bool" where
  "postAfterWrite prev e =
     (case e of
        AxiosPost url req \<Rightarrow>
          prev = Some (WriteFileSync (''./'' @ contract_name req @ ''.json'') (JSON_stringify req))
      | _ \<Rightarrow> True)"

text \<open>
  The events of a run that starts with an attempt: a completed wait, the fetch, and then only
  acceptable fetches and posts.
\<close>

definition attemptEvents :: "string \<Rightarrow> event option \<Rightarrow> event list \<Rightarrow> bool" where
  "attemptEvents address prev evs =
     (take 2 evs = [Delay 5000 Awaited, RetrieveContractBytecode address]
      \<and> chain fetchAfterWait prev evs \<and> chain postAfterWrite prev evs)"


subsection \<open>The import graph\<close>

text \<open>
  The graph that the traversal walks. A source has import paths when it is a key of
  \<^verbatim>\<open>input.sources\<close> and its text parses; an edge leads from a source to every key that one of
  its import paths resolves to through \<^verbatim>\<open>getAbsoluteSourcePath\<close>; a source is resolvable
  when it has import paths and each of them resolves.
\<close>

definition importPaths :: "parser \<Rightarrow> CompilerInput \<Rightarrow> string \<Rightarrow> string list option" where
  "importPaths parse input n =
     (case map_of (sources input) n of
        None \<Rightarrow> None
      | Some src \<Rightarrow> (case parse (content src) of Inl e \<Rightarrow> None | Inr paths \<Rightarrow> Some paths))"

definition importEdges :: "parser \<Rightarrow> CompilerInput \<Rightarrow> (string \<times> string) set" where
  "importEdges parse input =
     {(n, m). \<exists>paths path. importPaths parse input n = Some paths \<and> path \<in> set paths
                \<and> getAbsoluteSourcePath path input = Inr m}"

definition resolvable :: "parser \<Rightarrow> CompilerInput \<Rightarrow> string \<Rightarrow> bool" where
  "resolvable parse input n =
     (\<exists>paths. importPaths parse input n = Some paths
        \<and> (\<forall>path\<in>set paths. \<exists>m. getAbsoluteSourcePath path input = Inr m))"

definition resolvedTargets :: "CompilerInput \<Rightarrow> string list \<Rightarrow> string set" where
  "resolvedTargets input paths = {m. \<exists>path\<in>set paths. getAbsoluteSourcePath path input = Inr m}"


subsection \<open>Example build records\<close>

text \<open>
  A stand-in for the external parser on the source texts used below: each text is an import
  directive with the path shown, or a text without imports.
\<close>

definition exampleParser :: parser where
  "exampleParser text =
     (if text = ''import './B.sol';'' then Inr [''./B.sol'']
      else if text = ''import './A.sol';'' then Inr [''./A.sol'']
      else if text = ''import './Missing.sol';'' then Inr [''./Missing.sol'']
      else if text = ''import './my-token.sol';'' then Inr [''./my-token.sol'']
      else if text = ''import 'Foo.sol';'' then Inr [''Foo.sol'']
      else Inr [])"

definition exampleSettings :: Settings where
  "exampleSettings = \<lparr>optimizer_enabled = True, optimizer_runs = 200, libraries = []\<rparr>"

definition exampleInput :: CompilerInput where
  "exampleInput =
     \<lparr>language = ''Solidity'',
      sources = [(''contracts/A.sol'', \<lparr>content = ''import './B.sol';''\<rparr>),
                 (''contracts/B.sol'', \<lparr>content = ''contract B {}''\<rparr>),
                 (''contracts/C.sol'', \<lparr>content = ''contract C {}''\<rparr>)],
      settings = exampleSettings\<rparr>"

definition cyclicInput :: CompilerInput where
  "cyclicInput =
     \<lparr>language = ''Solidity'',
      sources = [(''contracts/A.sol'', \<lparr>content = ''import './B.sol';''\<rparr>),
                 (''contracts/B.sol'', \<lparr>content = ''import './A.sol';''\<rparr>)],
      settings = exampleSettings\<rparr>"


definition reorderedInput :: CompilerInput where
  "reorderedInput =
     \<lparr>language = ''Solidity'',
      sources = [(''contracts/C.sol'', \<lparr>content = ''contract C {}''\<rparr>),
                 (''contracts/B.sol'', \<lparr>content = ''contract B {}''\<rparr>),
                 (''contracts/A.sol'', \<lparr>content = ''import './B.sol';''\<rparr>)],
      settings = exampleSettings\<rparr>"

definition danglingInput :: CompilerInput where
  "danglingInput =
     \<lparr>language = ''Solidity'',
      sources = [(''contracts/A.sol'', \<lparr>content = ''import './Missing.sol';''\<rparr>),
                 (''contracts/B.sol'', \<lparr>content = ''contract B {}''\<rparr>)],
      settings = exampleSettings\<rparr>"

definition hyphenInput :: CompilerInput where
  "hyphenInput =
     \<lparr>language = ''Solidity'',
      sources = [(''contracts/A.sol'', \<lparr>content = ''import './my-token.sol';''\<rparr>),
                 (''contracts/my-token.sol'', \<lparr>content = ''contract MyToken {}''\<rparr>)],
      settings = exampleSettings\<rparr>"

definition slashlessInput :: CompilerInput where
  "slashlessInput =
     \<lparr>language = ''Solidity'',
      sources = [(''contracts/A.sol'', \<lparr>content = ''import 'Foo.sol';''\<rparr>),
                 (''contracts/Foo.sol'', \<lparr>content = ''contract Foo {}''\<rparr>)],
      settings = exampleSettings\<rparr>"

definition ambiguousInput :: CompilerInput where
  "ambiguousInput =
     \<lparr>language = ''Solidity'',
      sources = [(''contracts/a/Foo.sol'', \<lparr>content = ''contract Foo {}''\<rparr>),
                 (''contracts/b/Foo.sol'', \<lparr>content = ''contract Foo {}''\<rparr>)],
      settings = exampleSettings\<rparr>"

definition substringInput :: CompilerInput where
  "substringInput =
     \<lparr>language = ''Solidity'',
      sources = [(''contracts/Foo.sol.orig/Bar.sol'', \<lparr>content = ''contract Bar {}''\<rparr>)],
      settings = exampleSettings\<rparr>"

definition exampleBuildInfo :: BuildInfo where
  "exampleBuildInfo =
     \<lparr>solcVersion = ''0.7.1'',
      buildInfo_input = exampleInput,
      output_contracts =
        [(\<lparr>fqn_sourceName = ''contracts/A.sol'', fqn_contractName = ''A''\<rparr>, ''metadata of A''),
         (\<lparr>fqn_sourceName = ''contracts/B.sol'', fqn_contractName = ''B''\<rparr>, ''metadata of B''),
         (\<lparr>fqn_sourceName = ''contracts/C.sol'', fqn_contractName = ''C''\<rparr>, ''metadata of C'')]\<rparr>"

definition otherBuildInfo :: BuildInfo where
  "otherBuildInfo =
     \<lparr>solcVersion = ''0.7.1'',
      buildInfo_input = cyclicInput,
      output_contracts =
        [(\<lparr>fqn_sourceName = ''contracts/Vault.sol'', fqn_contractName = ''Vault''\<rparr>,
          ''metadata of Vault'')]\<rparr>"

definition laterBuildInfo :: BuildInfo where
  "laterBuildInfo =
     \<lparr>solcVersion = ''0.7.6'',
      buildInfo_input = reorderedInput,
      output_contracts =
        [(\<lparr>fqn_sourceName = ''contracts/A.sol'', fqn_contractName = ''A''\<rparr>, ''metadata of A'')]\<rparr>"

definition exampleBuildInfos :: "BuildInfo list" where
  "exampleBuildInfos = [otherBuildInfo, exampleBuildInfo, laterBuildInfo]"

text \<open>
  External outcomes for a run of \<^verbatim>\<open>verify\<close> in which every collaborator answers and the
  verification service resolves to the given response.
\<close>

definition exampleContractInformation :: ContractInformation where
  "exampleContractInformation =
     \<lparr>ci_sourceName = ''contracts/A.sol'', ci_contractName = ''A'', ci_solcVersion = ''0.7.1'',
      ci_abi = ''[]'', ci_libraryLinks = []\<rparr>"

definition exampleLinks :: LibraryLinks where
  "exampleLinks = [(''contracts/Lib.sol'', [(''Lib'', ''0x0000000000000000000000000000000000000001'')])]"

definition exampleExternals :: "AxiosResponse \<Rightarrow> Externals" where
  "exampleExternals response =
     \<lparr>retrieveContractBytecode_result = Inr ''0x6080'',
      getBuildInfos_result = Inr exampleBuildInfos,
      findContractSourceName_result = Inr ''contracts/A.sol'',
      extractMatchingContractInformation_result = Inr (Some exampleContractInformation),
      getLibraryLinks_result = Inr exampleLinks,
      encodeArguments_result = Inr ''0x'',
      getLongVersion_result = Inr ''v0.7.1+commit.f4a555be'',
      writeFileSync_result = None,
      axios_post_result = Inr response\<rparr>"

text \<open>The response of a verification service that accepts the post.\<close>

definition presentResponse :: AxiosResponse where
  "presentResponse = \<lparr>data_success = True, status = 200, data_text = ''[object Object]''\<rparr>"






definition emptyWorld :: World where
  "emptyWorld = \<lparr>attempts = 0, trace = [], files = Map.empty, loaded = []\<rparr>"

definition exampleAddress :: string where
  "exampleAddress = ''0x00000000000000000000000000000000000000aa''"

definition exampleRequest :: Request where
  "exampleRequest =
     \<lparr>contract_address = exampleAddress,
      source_code = [\<lparr>sf_content = ''import './B.sol';'', file_name = ''contracts/A.sol''\<rparr>,
                     \<lparr>sf_content = ''contract B {}'', file_name = ''contracts/B.sol''\<rparr>],
      contract_name = ''A'',
      version = ''v0.7.1+commit.f4a555be'',
      args = EncodedString ''0x'',
      optimization = True,
      runs = 200,
      compiler_type = ''solidity''\<rparr>"

text \<open>The same externals with a verification service that rejects the post.\<close>

definition rejectingExternals :: Externals where
  "rejectingExternals =
     (exampleExternals presentResponse)
       \<lparr>axios_post_result :=
          Inl \<lparr>error_text = ''Error: Request failed with status code 400'',
               response_data_message = Some ''Bad Request''\<rparr>\<rparr>"

section \<open>Properties\<close>

subsection \<open>Strings, the pattern and array search\<close>

lemma String_includes_sublist: "String_includes s t \<longleftrightarrow> sublist t s"
  by (induction s) (auto simp: sublist_Cons_right)

lemma String_includes_iff: "String_includes s t \<longleftrightarrow> (\<exists>pre post. s = pre @ t @ post)"
  by (simp add: String_includes_sublist sublist_def)

lemma lastSlashMatch_no_slash: "CHR ''/'' \<notin> set s \<Longrightarrow> lastSlashMatch s = None"
  by (induction s) auto

lemma matchSolFileName_no_slash: "CHR ''/'' \<notin> set s \<Longrightarrow> matchSolFileName s = None"
proof (induction s rule: matchSolFileName.induct)
  case (1 s)
  have a: "CHR ''/'' \<notin> set (takeWhile (\<lambda>c. \<not> isLineTerminator c) s)"
    using 1(2) set_takeWhileD by fastforce
  show ?case
  proof (cases "dropWhile (\<lambda>c. \<not> isLineTerminator c) s")
    case Nil
    show ?thesis
      by (subst matchSolFileName.simps)
         (simp only: lastSlashMatch_no_slash[OF a] Nil option.case list.case)
  next
    case (Cons c rest)
    have "set rest \<subseteq> set (dropWhile (\<lambda>c. \<not> isLineTerminator c) s)" using Cons by auto
    then have "set rest \<subseteq> set s" using set_dropWhileD by fastforce
    then have "CHR ''/'' \<notin> set rest" using 1(2) by auto
    with 1(1)[OF lastSlashMatch_no_slash[OF a] Cons] have "matchSolFileName rest = None" .
    then show ?thesis
      by (subst matchSolFileName.simps) (simp add: lastSlashMatch_no_slash[OF a] Cons)
  qed
qed

lemma Array_findRef_Some:
  "Array_findRef P xs = Some i \<longleftrightarrow> i < length xs \<and> P (xs ! i) \<and> (\<forall>j<i. \<not> P (xs ! j))"
proof (induction xs arbitrary: i)
  case Nil then show ?case by simp
next
  case (Cons x xs)
  show ?case
  proof (cases "P x")
    case True
    then show ?thesis by (cases i) auto
  next
    case False
    show ?thesis
    proof (cases i)
      case 0 with False show ?thesis by auto
    next
      case (Suc k)
      have "(\<forall>j<Suc k. \<not> P ((x # xs) ! j)) \<longleftrightarrow> (\<forall>j<k. \<not> P (xs ! j))"
        using False by (auto simp: less_Suc_eq_0_disj)
      with False Suc Cons.IH[of k] show ?thesis by auto
    qed
  qed
qed

lemma Array_findRef_None: "Array_findRef P xs = None \<longleftrightarrow> (\<forall>x\<in>set xs. \<not> P x)"
  by (induction xs) auto

subsection \<open>Trimming keeps the entries of the set, in key order\<close>

lemma Object_set_fresh: "k \<notin> fst ` set obj \<Longrightarrow> Object_set k v obj = obj @ [(k, v)]"
  by (induction obj) auto

lemma foldl_Object_assign_singletons:
  "distinct (map fst (acc @ kvs)) \<Longrightarrow>
     foldl Object_assign acc (map (\<lambda>kv. [kv]) kvs) = acc @ kvs"
proof (induction kvs arbitrary: acc)
  case Nil then show ?case by simp
next
  case (Cons kv kvs)
  obtain k v where kv: "kv = (k, v)" by (cases kv)
  have "k \<notin> fst ` set acc" using Cons.prems kv by auto
  then have "Object_assign acc [kv] = acc @ [kv]"
    by (simp add: Object_assign_def kv Object_set_fresh)
  moreover have "distinct (map fst ((acc @ [kv]) @ kvs))" using Cons.prems by simp
  ultimately show ?case using Cons.IH[of "acc @ [kv]"] by simp
qed

lemma map_filter_lookup:
  "distinct (map fst srcs) \<Longrightarrow> set ks \<subseteq> fst ` set srcs \<Longrightarrow>
   List.map_filter (\<lambda>source. map_option (\<lambda>v. [(source, v)]) (map_of srcs source)) ks
     = map (\<lambda>k. [(k, the (map_of srcs k))]) ks"
  by (induction ks) (auto simp: List.map_filter_simps  split: option.splits dest: map_of_eq_None_iff[THEN iffD1])

lemma keys_filter_entries:
  "distinct (map fst srcs) \<Longrightarrow>
     map (\<lambda>k. (k, the (map_of srcs k))) (filter P (map fst srcs)) = filter (\<lambda>(k, v). P k) srcs"
proof (induction srcs)
  case Nil then show ?case by simp
next
  case (Cons a srcs)
  obtain k v where a: "a = (k, v)" by (cases a)
  have k: "k \<notin> fst ` set srcs" using Cons.prems a by auto
  have "map (\<lambda>k'. (k', the (map_of (a # srcs) k'))) (filter P (map fst srcs))
        = map (\<lambda>k'. (k', the (map_of srcs k'))) (filter P (map fst srcs))"
    using k a by (intro map_cong) (auto simp: image_iff)
  with Cons a show ?case by auto
qed

lemma trimmedSources_filter:
  assumes "distinct (map fst srcs)"
  shows "trimmedSources S srcs = filter (\<lambda>(k, v). k \<in> set S) srcs"
proof -
  let ?ks = "filter (\<lambda>source. source \<in> set S) (map fst srcs)"
  have sub: "set ?ks \<subseteq> fst ` set srcs" by auto
  have "trimmedSources S srcs = foldl Object_assign [] (map (\<lambda>k. [(k, the (map_of srcs k))]) ?ks)"
    unfolding trimmedSources_def by (simp only: map_filter_lookup[OF assms sub])
  also have "\<dots> = foldl Object_assign [] (map (\<lambda>kv. [kv]) (map (\<lambda>k. (k, the (map_of srcs k))) ?ks))"
    by (simp add: comp_def)
  also have "\<dots> = foldl Object_assign [] (map (\<lambda>kv. [kv]) (filter (\<lambda>(k, v). k \<in> set S) srcs))"
    by (simp only: keys_filter_entries[OF assms])
  also have "\<dots> = [] @ filter (\<lambda>(k, v). k \<in> set S) srcs"
    by (rule foldl_Object_assign_singletons) (use assms in \<open>simp add: distinct_map_filter\<close>)
  finally show ?thesis by simp
qed

lemma subseq_keys_filter: "subseq (map fst (filter P srcs)) (map fst srcs)"
  by (induction srcs) auto

subsection \<open>The traversal computes reachability\<close>

lemma resolvedTargets_Cons:
  "resolvedTargets input (p # ps) =
     {m. getAbsoluteSourcePath p input = Inr m} \<union> resolvedTargets input ps"
  by (auto simp: resolvedTargets_def)

lemma importEdges_Image:
  "importPaths parse input n = Some paths \<Longrightarrow>
     importEdges parse input `` {n} = resolvedTargets input paths"
  by (auto simp: importEdges_def resolvedTargets_def)

lemma closure_sound:
  "getContractImportedSourceNames parse n input prev = Inr r \<Longrightarrow>
     set prev \<subseteq> set r \<and> resolvable parse input n \<and> importEdges parse input `` {n} \<subseteq> set r
     \<and> (\<forall>x\<in>set r - set prev. resolvable parse input x \<and> importEdges parse input `` {x} \<subseteq> set r)
     \<and> set r \<subseteq> set prev \<union> (importEdges parse input)\<^sup>* `` {n}
     \<and> (distinct prev \<longrightarrow> distinct r)"
  "visitImportDirectives parse ps input prev = Inr r \<Longrightarrow>
     set prev \<subseteq> set r \<and> (\<forall>p\<in>set ps. \<exists>m. getAbsoluteSourcePath p input = Inr m)
     \<and> resolvedTargets input ps \<subseteq> set r
     \<and> (\<forall>x\<in>set r - set prev. resolvable parse input x \<and> importEdges parse input `` {x} \<subseteq> set r)
     \<and> set r \<subseteq> set prev \<union> (importEdges parse input)\<^sup>* `` resolvedTargets input ps
     \<and> (distinct prev \<longrightarrow> distinct r)"
proof (induction parse n input prev and parse ps input prev arbitrary: r and r
       rule: getContractImportedSourceNames_visitImportDirectives.induct)
  case (1 parse sourceName input previousSourceNames)
  from "1.prems" obtain src paths where
    src: "map_of (sources input) sourceName = Some src" and
    paths: "parse (content src) = Inr paths" and
    v: "visitImportDirectives parse paths input previousSourceNames = Inr r"
    by (auto simp: getContractImportedSourceNames.simps split: option.splits sum.splits)
  have ip: "importPaths parse input sourceName = Some paths"
    by (simp add: importPaths_def src paths)
  note ih = "1.IH"[OF src paths v]
  have E: "importEdges parse input `` {sourceName} = resolvedTargets input paths"
    by (rule importEdges_Image[OF ip])
  have "resolvable parse input sourceName"
    unfolding resolvable_def using ip ih by blast
  moreover have "(importEdges parse input)\<^sup>* `` resolvedTargets input paths
                   \<subseteq> (importEdges parse input)\<^sup>* `` {sourceName}"
    using E by (auto intro: converse_rtrancl_into_rtrancl)
  then have "set r \<subseteq> set previousSourceNames \<union> (importEdges parse input)\<^sup>* `` {sourceName}"
    using ih by blast
  moreover have "importEdges parse input `` {sourceName} \<subseteq> set r"
    using ih E by simp
  ultimately show ?case using ih by blast
next
  case (2 parse input previousSourceNames)
  then show ?case by (simp add: resolvedTargets_def)
next
  case (3 parse path paths input previousSourceNames)
  from "3.prems" obtain m where m: "getAbsoluteSourcePath path input = Inr m"
    by (auto split: sum.splits)
  let ?E = "importEdges parse input"
  have RT: "resolvedTargets input (path # paths) = insert m (resolvedTargets input paths)"
    by (auto simp: resolvedTargets_Cons m)
  show ?case
  proof (cases "m \<in> set previousSourceNames")
    case True
    with "3.prems" m have v: "visitImportDirectives parse paths input previousSourceNames = Inr r"
      by simp
    note ih = "3.IH"(1)[OF m True v]
    have "?E\<^sup>* `` resolvedTargets input paths \<subseteq> ?E\<^sup>* `` resolvedTargets input (path # paths)"
      unfolding RT by auto
    with ih True m show ?thesis unfolding RT by auto
  next
    case False
    with "3.prems" m obtain r1 where
      c: "getContractImportedSourceNames parse m input (Set_add previousSourceNames m) = Inr r1" and
      v: "visitImportDirectives parse paths input r1 = Inr r"
      by (auto split: sum.splits)
    note ih1 = "3.IH"(2)[OF m False c]
    note ih2 = "3.IH"(3)[OF m False c v]
    have sa: "set (Set_add previousSourceNames m) = insert m (set previousSourceNames)"
      "distinct previousSourceNames \<longrightarrow> distinct (Set_add previousSourceNames m)"
      using False by (auto simp: Set_add_def)
    have a: "set previousSourceNames \<subseteq> set r" using ih1 ih2 sa by auto
    have b: "\<forall>p\<in>set (path # paths). \<exists>m. getAbsoluteSourcePath p input = Inr m"
      using ih2 m by auto
    have c': "resolvedTargets input (path # paths) \<subseteq> set r"
      unfolding RT using ih1 ih2 sa by auto
    have d: "\<forall>x\<in>set r - set previousSourceNames. resolvable parse input x \<and> ?E `` {x} \<subseteq> set r"
    proof
      fix x assume x: "x \<in> set r - set previousSourceNames"
      show "resolvable parse input x \<and> ?E `` {x} \<subseteq> set r"
      proof (cases "x \<in> set r1")
        case False with x ih2 show ?thesis by auto
      next
        case True
        show ?thesis
        proof (cases "x = m")
          case True with ih1 ih2 show ?thesis by auto
        next
          case False
          with True x sa have "x \<in> set r1 - set (Set_add previousSourceNames m)" by auto
          with ih1 ih2 show ?thesis by blast
        qed
      qed
    qed
    have e: "set r \<subseteq> set previousSourceNames \<union> ?E\<^sup>* `` resolvedTargets input (path # paths)"
    proof
      fix x assume "x \<in> set r"
      with ih2 have "x \<in> set r1 \<or> x \<in> ?E\<^sup>* `` resolvedTargets input paths" by auto
      then show "x \<in> set previousSourceNames \<union> ?E\<^sup>* `` resolvedTargets input (path # paths)"
      proof
        assume "x \<in> set r1"
        with ih1 sa have "x \<in> insert m (set previousSourceNames) \<union> ?E\<^sup>* `` {m}" by auto
        then show ?thesis unfolding RT by auto
      next
        assume "x \<in> ?E\<^sup>* `` resolvedTargets input paths"
        then show ?thesis unfolding RT by auto
      qed
    qed
    have f: "distinct previousSourceNames \<longrightarrow> distinct r" using ih1 ih2 sa by auto
    from a b c' d e f show ?thesis by blast
  qed
qed

lemma closure_failure:
  "getContractImportedSourceNames parse n input prev = Inl e \<Longrightarrow>
     \<exists>x. (n, x) \<in> (importEdges parse input)\<^sup>* \<and> \<not> resolvable parse input x"
  "visitImportDirectives parse ps input prev = Inl e \<Longrightarrow>
     (\<exists>p\<in>set ps. \<exists>e'. getAbsoluteSourcePath p input = Inl e')
     \<or> (\<exists>m\<in>resolvedTargets input ps. \<exists>x. (m, x) \<in> (importEdges parse input)\<^sup>*
           \<and> \<not> resolvable parse input x)"
proof (induction parse n input prev and parse ps input prev arbitrary: e and e
       rule: getContractImportedSourceNames_visitImportDirectives.induct)
  case (1 parse sourceName input previousSourceNames)
  show ?case
  proof (cases "importPaths parse input sourceName")
    case None
    then have "\<not> resolvable parse input sourceName" by (simp add: resolvable_def)
    then show ?thesis by blast
  next
    case (Some paths)
    then obtain src where
      src: "map_of (sources input) sourceName = Some src" and
      paths: "parse (content src) = Inr paths"
      by (auto simp: importPaths_def split: option.splits sum.splits)
    with "1.prems" have v: "visitImportDirectives parse paths input previousSourceNames = Inl e"
      by (simp add: getContractImportedSourceNames.simps)
    from "1.IH"[OF src paths v] show ?thesis
    proof
      assume "\<exists>p\<in>set paths. \<exists>e'. getAbsoluteSourcePath p input = Inl e'"
      then obtain p e' where "p \<in> set paths" "getAbsoluteSourcePath p input = Inl e'" by blast
      then have "\<not> (\<forall>path\<in>set paths. \<exists>m. getAbsoluteSourcePath path input = Inr m)"
        by force
      then have "\<not> resolvable parse input sourceName"
        using Some by (simp add: resolvable_def)
      then show ?thesis by blast
    next
      assume "\<exists>m\<in>resolvedTargets input paths. \<exists>x. (m, x) \<in> (importEdges parse input)\<^sup>*
                \<and> \<not> resolvable parse input x"
      then obtain m x where "m \<in> resolvedTargets input paths"
        "(m, x) \<in> (importEdges parse input)\<^sup>*" "\<not> resolvable parse input x" by blast
      moreover from this importEdges_Image[OF Some] have "(sourceName, m) \<in> importEdges parse input"
        by auto
      ultimately show ?thesis by (blast intro: converse_rtrancl_into_rtrancl)
    qed
  qed
next
  case (2 parse input previousSourceNames)
  then show ?case by simp
next
  case (3 parse path paths input previousSourceNames)
  show ?case
  proof (cases "getAbsoluteSourcePath path input")
    case (Inl e') then show ?thesis by auto
  next
    case (Inr m)
    have RT: "resolvedTargets input (path # paths) = insert m (resolvedTargets input paths)"
      by (auto simp: resolvedTargets_Cons Inr)
    show ?thesis
    proof (cases "m \<in> set previousSourceNames")
      case True
      with "3.prems" Inr have "visitImportDirectives parse paths input previousSourceNames = Inl e"
        by simp
      from "3.IH"(1)[OF Inr True this] show ?thesis unfolding RT by auto
    next
      case False
      show ?thesis
      proof (cases "getContractImportedSourceNames parse m input (Set_add previousSourceNames m)")
        case (Inl e2)
        from "3.IH"(2)[OF Inr False Inl] show ?thesis unfolding RT by blast
      next
        case r1: (Inr r1)
        with "3.prems" Inr False have "visitImportDirectives parse paths input r1 = Inl e" by simp
        from "3.IH"(3)[OF Inr False r1 this] show ?thesis unfolding RT by auto
      qed
    qed
  qed
qed

lemma closed_reachable:
  assumes "root \<in> S" and "\<forall>x\<in>S. E `` {x} \<subseteq> S"
  shows "E\<^sup>* `` {root} \<subseteq> S"
proof
  fix y assume "y \<in> E\<^sup>* `` {root}"
  then have "(root, y) \<in> E\<^sup>*" by simp
  then show "y \<in> S" using assms by (induction rule: rtrancl_induct) auto
qed

lemma closure_from_root:
  "(case getContractImportedSourceNames parse root input (Set_add [] root) of
      Inr closure \<Rightarrow>
        set closure = (importEdges parse input)\<^sup>* `` {root} \<and> distinct closure
        \<and> (\<forall>x\<in>set closure. resolvable parse input x)
    | Inl e \<Rightarrow> \<exists>x\<in>(importEdges parse input)\<^sup>* `` {root}. \<not> resolvable parse input x)"
proof (cases "getContractImportedSourceNames parse root input (Set_add [] root)")
  case (Inl e)
  from closure_failure(1)[OF Inl] show ?thesis by (auto simp: Inl)
next
  case (Inr r)
  note s = closure_sound(1)[OF Inr]
  have sa: "set (Set_add [] root) = {root}" "distinct (Set_add [] root)" by (auto simp: Set_add_def)
  have root: "root \<in> set r" using s sa by auto
  have all: "\<forall>x\<in>set r. resolvable parse input x \<and> importEdges parse input `` {x} \<subseteq> set r"
  proof
    fix x assume "x \<in> set r"
    then show "resolvable parse input x \<and> importEdges parse input `` {x} \<subseteq> set r"
      using s sa by (cases "x = root") auto
  qed
  have "(importEdges parse input)\<^sup>* `` {root} \<subseteq> set r"
    using closed_reachable[OF root] all by blast
  moreover have "set r \<subseteq> (importEdges parse input)\<^sup>* `` {root}" using s sa by auto
  ultimately show ?thesis using s sa all by (auto simp: Inr)
qed

subsection \<open>Effects of the submission pipeline\<close>

lemmas io_defs = bind_def return_def throw_def external_def emit_def delay_def console_log_def
  logger_info_def

lemma verifyContract_effect:
  assumes "verifyContract ext url req w = (r, w')"
  shows "attempts w' = attempts w \<and> loaded w' = loaded w
     \<and> (\<exists>tail. trace w' = trace w @ tail
         \<and> (case r of
               Inr response \<Rightarrow>
                 tail = [WriteFileSync (''./'' @ contract_name req @ ''.json'') (JSON_stringify req),
                         AxiosPost url req, ConsoleLog [''Verified!'']]
                 \<and> data_success response \<and> axios_post_result ext = Inr response
             | Inl e \<Rightarrow>
                 tail = []
                 \<or> (\<exists>logs. tail = WriteFileSync (''./'' @ contract_name req @ ''.json'') (JSON_stringify req)
                                  # AxiosPost url req # logs
                      \<and> (logs = [] \<or> (\<exists>t. logs = [ConsoleLog t])))))"
  using assms
  by (auto simp add: verifyContract_def io_defs split: option.splits sum.splits if_splits)

lemma attemptVerification_effect:
  assumes "attemptVerification ext url ci addr found ver dargs w = (r, w')"
  shows "attempts w' = attempts w
     \<and> loaded w' = (loaded w)[found := (loaded w ! found)
                        \<lparr>buildInfo_input := linkedInput (ci_libraryLinks ci) (buildInfo_input (loaded w ! found))\<rparr>]
     \<and> (\<exists>tail req. trace w' = trace w @ tail
         \<and> req = requestOf addr (linkedInput (ci_libraryLinks ci) (buildInfo_input (loaded w ! found)))
                    (ci_contractName ci) ver dargs
         \<and> (case r of
               Inr response \<Rightarrow>
                 tail = [WriteFileSync (''./'' @ contract_name req @ ''.json'') (JSON_stringify req),
                         AxiosPost url req, ConsoleLog [''Verified!''], Delay 5000 Awaited]
                 \<and> data_success response \<and> axios_post_result ext = Inr response
             | Inl e \<Rightarrow>
                 tail = []
                 \<or> (\<exists>logs. tail = WriteFileSync (''./'' @ contract_name req @ ''.json'') (JSON_stringify req)
                                  # AxiosPost url req # logs
                      \<and> (logs = [] \<or> (\<exists>t. logs = [ConsoleLog t])))))"
proof -
  let ?ci' = "linkedInput (ci_libraryLinks ci) (buildInfo_input (loaded w ! found))"
  let ?w0 = "w\<lparr>loaded := (loaded w)[found := (loaded w ! found)\<lparr>buildInfo_input := ?ci'\<rparr>]\<rparr>"
  let ?req = "requestOf addr ?ci' (ci_contractName ci) ver dargs"
  obtain r1 w1 where vc: "verifyContract ext url ?req ?w0 = (r1, w1)" by fastforce
  note e = verifyContract_effect[OF vc]
  show ?thesis
  proof (cases r1)
    case (Inl err)
    with vc assms have "r = Inl err" "w' = w1"
      by (simp_all add: attemptVerification_def bind_def Let_def linkedInput_def requestOf_def)
    with e Inl show ?thesis by auto
  next
    case (Inr response)
    with vc assms have "r = Inr response" "w' = w1\<lparr>trace := trace w1 @ [Delay 5000 Awaited]\<rparr>"
      by (simp_all add: attemptVerification_def io_defs Let_def linkedInput_def requestOf_def)
    with e Inr show ?thesis by auto
  qed
qed

lemma verify_effect:
  assumes "verify ext parse name address theArgs theLibraries w = (r, w')"
  shows "attempts w' = Suc (attempts w)
     \<and> (\<exists>tail. trace w' = trace w @ Delay 5000 Awaited # RetrieveContractBytecode address # tail
         \<and> (case r of
               Inr response \<Rightarrow>
                 (\<exists>req. tail = [WriteFileSync (''./'' @ contract_name req @ ''.json'') (JSON_stringify req),
                         AxiosPost apiURL req, ConsoleLog [''Verified!''], Delay 5000 Awaited])
                 \<and> data_success response \<and> axios_post_result ext = Inr response
             | Inl e \<Rightarrow>
                 tail = []
                 \<or> (\<exists>req logs. tail = WriteFileSync (''./'' @ contract_name req @ ''.json'') (JSON_stringify req)
                                  # AxiosPost apiURL req # logs
                      \<and> (logs = [] \<or> (\<exists>t. logs = [ConsoleLog t])))))"
  using assms
  by (simp add: verify_def io_defs
        split: sum.splits option.splits prod.splits ConstructorArguments.splits)
     (auto dest!: attemptVerification_effect split: sum.splits)

lemma verify_chain:
  assumes "verify ext parse name address theArgs theLibraries w = (r, w')"
  shows "\<exists>evs. trace w' = trace w @ evs \<and> attemptEvents address prev evs"
proof -
  from verify_effect[OF assms] obtain tail where
    t: "trace w' = trace w @ Delay 5000 Awaited # RetrieveContractBytecode address # tail" and
    c: "case r of
          Inr response \<Rightarrow>
            (\<exists>req. tail = [WriteFileSync (''./'' @ contract_name req @ ''.json'') (JSON_stringify req),
                    AxiosPost apiURL req, ConsoleLog [''Verified!''], Delay 5000 Awaited])
            \<and> data_success response \<and> axios_post_result ext = Inr response
        | Inl e \<Rightarrow>
            tail = []
            \<or> (\<exists>req logs. tail = WriteFileSync (''./'' @ contract_name req @ ''.json'') (JSON_stringify req)
                             # AxiosPost apiURL req # logs
                 \<and> (logs = [] \<or> (\<exists>t. logs = [ConsoleLog t])))"
    by blast
  have "chain fetchAfterWait (Some (RetrieveContractBytecode address)) tail
        \<and> chain postAfterWrite (Some (RetrieveContractBytecode address)) tail"
    using c by (cases r) (auto simp: fetchAfterWait_def postAfterWrite_def)
  then have "chain fetchAfterWait prev (Delay 5000 Awaited # RetrieveContractBytecode address # tail)
        \<and> chain postAfterWrite prev (Delay 5000 Awaited # RetrieveContractBytecode address # tail)"
    by (simp add: fetchAfterWait_def postAfterWrite_def)
  then have "attemptEvents address prev
               (Delay 5000 Awaited # RetrieveContractBytecode address # tail)"
    by (simp add: attemptEvents_def)
  with t show ?thesis by blast
qed


lemma verify_attempts:
  "verify ext parse name address theArgs theLibraries w = (r, w') \<Longrightarrow> attempts w' = Suc (attempts w)"
  using verify_effect by blast

text \<open>
  Calling \<^verbatim>\<open>isVerificationSuccess\<close> on the response that \<^verbatim>\<open>verify\<close> returned raises,
  so \<^verbatim>\<open>call\<close> ends after its one run of \<^verbatim>\<open>verify\<close>.
\<close>

lemma call_single_attempt:
  "call externals parse name address cargs libs intent w =
     (case verify (externals (attempts w)) parse name address cargs libs w of
        (Inl e, w') \<Rightarrow> (Inl e, w')
      | (Inr response, w') \<Rightarrow>
          (Inl (TypeError ''response.isVerificationSuccess is not a function''), w'))"
  by (subst call.simps) (simp add: isVerificationSuccess_def split: prod.splits sum.splits)

lemma call_world:
  "snd (call externals parse name address cargs libs intent w)
     = snd (verify (externals (attempts w)) parse name address cargs libs w)"
  by (simp add: call_single_attempt split: prod.splits sum.splits)

lemma call_effect:
  assumes "call externals parse name address cargs libs intent w = (r, w')"
  shows "attempts w' = Suc (attempts w)
     \<and> (\<exists>evs. trace w' = trace w @ evs \<and> attemptEvents address prev evs)"
proof -
  obtain r1 w1 where v: "verify (externals (attempts w)) parse name address cargs libs w = (r1, w1)"
    by fastforce
  have "w' = w1"
    using call_world[of externals parse name address cargs libs intent w] assms v by simp
  with verify_attempts[OF v] verify_chain[OF v, of prev] show ?thesis by simp
qed

lemma example_found: "findBuildInfoWithContract exampleBuildInfos ''A'' = Inr 1"
  by code_simp

lemma example_selected: "exampleBuildInfos ! Suc 0 = exampleBuildInfo"
  by (simp add: exampleBuildInfos_def)

lemma example_trimmed:
  "trimmedBuildInfoInput exampleParser ''A'' (buildInfo_input exampleBuildInfo)
     = Inr (exampleInput\<lparr>sources :=
              [(''contracts/A.sol'', \<lparr>content = ''import './B.sol';''\<rparr>),
               (''contracts/B.sol'', \<lparr>content = ''contract B {}''\<rparr>)]\<rparr>)"
  by code_simp

lemma example_verify:
  "data_success response \<Longrightarrow>
   fst (verify (exampleExternals response) exampleParser ''A'' exampleAddress (EncodedString ''0x'') [] w)
     = Inr response"
  by (simp add: verify_def io_defs exampleExternals_def attemptVerification_def verifyContract_def
        example_found example_selected example_trimmed Let_def)


lemma findBuildInfoWithContract_bound:
  "findBuildInfoWithContract buildInfos name = Inr found \<Longrightarrow> found < length buildInfos"
  by (auto simp: findBuildInfoWithContract_def Array_findRef_Some split: option.splits)

lemma trimmedBuildInfoInput_frame:
  "trimmedBuildInfoInput parse name input = Inr trimmed \<Longrightarrow>
     language trimmed = language input \<and> settings trimmed = settings input"
  by (auto simp: trimmedBuildInfoInput_def split: sum.splits)

lemma verify_loaded:
  assumes "verify ext parse name address theArgs theLibraries w = (r, w')"
    and "retrieveContractBytecode_result ext = Inr hex"
    and "getBuildInfos_result ext = Inr buildInfos"
  shows "loaded w' = buildInfos
     \<or> (\<exists>found trimmed. findBuildInfoWithContract buildInfos name = Inr found
           \<and> trimmedBuildInfoInput parse name (buildInfo_input (buildInfos ! found)) = Inr trimmed
           \<and> (loaded w' = buildInfos[found := (buildInfos ! found)\<lparr>buildInfo_input := trimmed\<rparr>]
               \<or> (\<exists>links. getLibraryLinks_result ext = Inr links
                     \<and> loaded w' = buildInfos[found := (buildInfos ! found)
                          \<lparr>buildInfo_input := trimmed\<lparr>settings := (settings trimmed)\<lparr>libraries := links\<rparr>\<rparr>\<rparr>])))"
  using assms
  by (simp add: verify_def io_defs
        split: sum.splits option.splits prod.splits ConstructorArguments.splits)
     (auto dest!: attemptVerification_effect findBuildInfoWithContract_bound simp: linkedInput_def split: sum.splits)

lemma verify_loaded_Inr:
  assumes "verify ext parse name address theArgs theLibraries w = (Inr response, w')"
  shows "\<exists>buildInfos found trimmed links.
           getBuildInfos_result ext = Inr buildInfos
           \<and> findBuildInfoWithContract buildInfos name = Inr found
           \<and> trimmedBuildInfoInput parse name (buildInfo_input (buildInfos ! found)) = Inr trimmed
           \<and> getLibraryLinks_result ext = Inr links
           \<and> loaded w' = buildInfos[found := (buildInfos ! found)
                \<lparr>buildInfo_input := trimmed\<lparr>settings := (settings trimmed)\<lparr>libraries := links\<rparr>\<rparr>\<rparr>]"
  using assms
  by (simp add: verify_def io_defs
        split: sum.splits option.splits prod.splits ConstructorArguments.splits)
     (auto dest!: attemptVerification_effect findBuildInfoWithContract_bound simp: linkedInput_def split: sum.splits)

lemma verifyContract_written:
  "writeFileSync_result ext = None \<Longrightarrow>
     files (snd (verifyContract ext url req w)) (''./'' @ contract_name req @ ''.json'')
       = Some (JSON_stringify req)
     \<and> (\<exists>rest. trace (snd (verifyContract ext url req w))
           = trace w @ WriteFileSync (''./'' @ contract_name req @ ''.json'') (JSON_stringify req)
                     # AxiosPost url req # rest)"
  by (simp add: verifyContract_def io_defs split: sum.split option.split)

lemma verifyContract_write_fails:
  "writeFileSync_result ext = Some e \<Longrightarrow> verifyContract ext url req w = (Inl e, w)"
  by (simp add: verifyContract_def io_defs)

lemma example_length: "length exampleBuildInfos = 3"
  by (simp add: exampleBuildInfos_def)

lemma example_loaded:
  "data_success response \<Longrightarrow>
   loaded (snd (verify (exampleExternals response) exampleParser ''A'' exampleAddress
                  (EncodedString ''0x'') [] w))
     = exampleBuildInfos[Suc 0 := exampleBuildInfo
         \<lparr>buildInfo_input := exampleInput
            \<lparr>sources := [(''contracts/A.sol'', \<lparr>content = ''import './B.sol';''\<rparr>),
                         (''contracts/B.sol'', \<lparr>content = ''contract B {}''\<rparr>)],
             settings := (settings exampleInput)\<lparr>libraries := exampleLinks\<rparr>\<rparr>\<rparr>]"
  by (simp add: verify_def io_defs exampleExternals_def attemptVerification_def verifyContract_def
        example_found example_selected example_trimmed example_length Let_def)

section \<open>The claims\<close>

subsection \<open>C2: the import closure\<close>

text \<open>
  C2, as stated, fails: for a root that is a key of the record, the traversal does not always
  return a set. Here \<^verbatim>\<open>contracts/A.sol\<close> imports \<^verbatim>\<open>./my-token.sol\<close>, which is a key of the
  record; the hyphen is not a word character, the pattern does not match, and the traversal
  throws a TypeError. In the second record \<^verbatim>\<open>contracts/A.sol\<close> imports
  \<^verbatim>\<open>./Missing.sol\<close>, no key contains \<^verbatim>\<open>/Missing.sol\<close>, and the traversal throws.
\<close>

theorem getContractImportedSourceNames_dangling_import_counterexample:
  "map_of (sources hyphenInput) ''contracts/A.sol'' = Some \<lparr>content = ''import './my-token.sol';''\<rparr>
   \<and> map_of (sources hyphenInput) ''contracts/my-token.sol'' = Some \<lparr>content = ''contract MyToken {}''\<rparr>
   \<and> getContractImportedSourceNames exampleParser ''contracts/A.sol'' hyphenInput
        (Set_add [] ''contracts/A.sol'')
        = Inl (TypeError ''Cannot read properties of null (reading '1')'')
   \<and> map_of (sources danglingInput) ''contracts/A.sol'' = Some \<lparr>content = ''import './Missing.sol';''\<rparr>
   \<and> getContractImportedSourceNames exampleParser ''contracts/A.sol'' danglingInput
        (Set_add [] ''contracts/A.sol'')
        = Inl (Error ''Could not find source name for Missing'')"
  by code_simp

text \<open>
  C2, amended. Seeded with the root, \<^verbatim>\<open>getContractImportedSourceNames\<close> always terminates.
  It returns exactly when every source reachable from the root is resolvable (it is a key, its
  text parses, and each of its import paths resolves to a key); the result is then exactly the
  set of sources reachable from the root along resolved imports, the root included, each once.
  Otherwise it throws. With A importing B and B importing A the result is exactly A and B.
\<close>

theorem getContractImportedSourceNames_reachable:
  "(case getContractImportedSourceNames parse root input (Set_add [] root) of
      Inr closure \<Rightarrow>
        set closure = (importEdges parse input)\<^sup>* `` {root} \<and> distinct closure
        \<and> (\<forall>x\<in>set closure. resolvable parse input x)
    | Inl e \<Rightarrow> \<exists>x\<in>(importEdges parse input)\<^sup>* `` {root}. \<not> resolvable parse input x)"
  by (rule closure_from_root)

theorem getContractImportedSourceNames_reachable_witness:
  "getContractImportedSourceNames exampleParser ''contracts/A.sol'' cyclicInput
     (Set_add [] ''contracts/A.sol'') = Inr [''contracts/A.sol'', ''contracts/B.sol'']
   \<and> (importEdges exampleParser cyclicInput)\<^sup>* `` {''contracts/A.sol''}
       = {''contracts/A.sol'', ''contracts/B.sol''}
   \<and> resolvable exampleParser cyclicInput ''contracts/A.sol''
   \<and> resolvable exampleParser cyclicInput ''contracts/B.sol''"
proof -
  have e: "getContractImportedSourceNames exampleParser ''contracts/A.sol'' cyclicInput
             (Set_add [] ''contracts/A.sol'') = Inr [''contracts/A.sol'', ''contracts/B.sol'']"
    by code_simp
  from getContractImportedSourceNames_reachable
         [where parse = exampleParser and root = "''contracts/A.sol''" and input = cyclicInput]
  show ?thesis unfolding e by auto
qed

subsection \<open>C3: trimming\<close>

text \<open>
  C3. For a record whose source keys are pairwise different and any set of names, the trimmed
  sources are exactly the entries whose key is in the set, in the order of the original keys;
  the keys of the result are a sub-sequence of the original keys. Whenever
  \<^verbatim>\<open>trimmedBuildInfoInput\<close> returns, its result is the input with the sources so trimmed to the
  import closure of the contract's source. For A importing B and an unrelated C, verifying A
  keeps A and B and drops C; with the keys in the order C, B, A the closure A, B is kept as B, A.
\<close>

theorem trimmedBuildInfoInput_keeps_closure_in_key_order:
  assumes "distinct (map fst (sources input))"
  shows "trimmedSources S (sources input) = filter (\<lambda>(k, v). k \<in> set S) (sources input)
         \<and> subseq (map fst (trimmedSources S (sources input))) (map fst (sources input))
         \<and> (\<forall>trimmed. trimmedBuildInfoInput parse contractName input = Inr trimmed \<longrightarrow>
               (\<exists>root closure.
                   getContractSourceName contractName input = Inr root
                   \<and> getContractImportedSourceNames parse root input (Set_add [] root) = Inr closure
                   \<and> trimmed = input\<lparr>sources := filter (\<lambda>(k, v). k \<in> set closure) (sources input)\<rparr>
                   \<and> subseq (map fst (sources trimmed)) (map fst (sources input))))"
proof -
  have f: "\<And>S. trimmedSources S (sources input) = filter (\<lambda>(k, v). k \<in> set S) (sources input)"
    by (rule trimmedSources_filter[OF assms])
  have s: "\<And>S. subseq (map fst (trimmedSources S (sources input))) (map fst (sources input))"
    unfolding f by (rule subseq_keys_filter)
  have "\<And>trimmed. trimmedBuildInfoInput parse contractName input = Inr trimmed \<Longrightarrow>
               (\<exists>root closure.
                   getContractSourceName contractName input = Inr root
                   \<and> getContractImportedSourceNames parse root input (Set_add [] root) = Inr closure
                   \<and> trimmed = input\<lparr>sources := filter (\<lambda>(k, v). k \<in> set closure) (sources input)\<rparr>
                   \<and> subseq (map fst (sources trimmed)) (map fst (sources input)))"
    using s by (auto simp: trimmedBuildInfoInput_def f split: sum.splits)
  with f s show ?thesis by blast
qed

theorem trimmedBuildInfoInput_keeps_closure_in_key_order_witness:
  "distinct (map fst (sources exampleInput))
   \<and> trimmedBuildInfoInput exampleParser ''A'' exampleInput
       = Inr (exampleInput\<lparr>sources :=
                [(''contracts/A.sol'', \<lparr>content = ''import './B.sol';''\<rparr>),
                 (''contracts/B.sol'', \<lparr>content = ''contract B {}''\<rparr>)]\<rparr>)
   \<and> subseq [''contracts/A.sol'', ''contracts/B.sol''] (map fst (sources exampleInput))
   \<and> trimmedSources [''contracts/A.sol'', ''contracts/B.sol''] (sources reorderedInput)
       = [(''contracts/B.sol'', \<lparr>content = ''contract B {}''\<rparr>),
          (''contracts/A.sol'', \<lparr>content = ''import './B.sol';''\<rparr>)]"
proof -
  have d: "distinct (map fst (sources exampleInput))" by (simp add: exampleInput_def)
  have d': "distinct (map fst (sources reorderedInput))" by (simp add: reorderedInput_def)
  have t: "trimmedBuildInfoInput exampleParser ''A'' exampleInput
       = Inr (exampleInput\<lparr>sources :=
                [(''contracts/A.sol'', \<lparr>content = ''import './B.sol';''\<rparr>),
                 (''contracts/B.sol'', \<lparr>content = ''contract B {}''\<rparr>)]\<rparr>)"
    by code_simp
  from trimmedBuildInfoInput_keeps_closure_in_key_order
         [OF d, where parse = exampleParser and contractName = "''A''"] t
  have "subseq (map fst [(''contracts/A.sol'', \<lparr>content = ''import './B.sol';''\<rparr>),
                 (''contracts/B.sol'', \<lparr>content = ''contract B {}''\<rparr>)]) (map fst (sources exampleInput))"
    by auto
  moreover from trimmedBuildInfoInput_keeps_closure_in_key_order
     [OF d', where S = "[''contracts/A.sol'', ''contracts/B.sol'']"]
  have "trimmedSources [''contracts/A.sol'', ''contracts/B.sol''] (sources reorderedInput)
       = [(''contracts/B.sol'', \<lparr>content = ''contract B {}''\<rparr>),
          (''contracts/A.sol'', \<lparr>content = ''import './B.sol';''\<rparr>)]"
    by (simp add: reorderedInput_def)
  ultimately show ?thesis using d t by simp
qed

subsection \<open>C5: resolving the source path of a contract\<close>

text \<open>
  C5, as stated, fails. Two keys end with \<^verbatim>\<open>/Foo.sol\<close> and \<^verbatim>\<open>getContractSourceName\<close> returns
  the first of them instead of failing; and a key that merely contains \<^verbatim>\<open>/Foo.sol\<close> is
  returned although it does not end with it.
\<close>

theorem getContractSourceName_ambiguous_counterexample:
  "suffix ''/Foo.sol'' ''contracts/a/Foo.sol'' \<and> suffix ''/Foo.sol'' ''contracts/b/Foo.sol''
   \<and> map fst (sources ambiguousInput) = [''contracts/a/Foo.sol'', ''contracts/b/Foo.sol'']
   \<and> getContractSourceName ''Foo'' ambiguousInput = Inr ''contracts/a/Foo.sol''
   \<and> \<not> suffix ''/Foo.sol'' ''contracts/Foo.sol.orig/Bar.sol''
   \<and> getContractSourceName ''Foo'' substringInput = Inr ''contracts/Foo.sol.orig/Bar.sol''"
  by code_simp

text \<open>
  C5, amended. \<^verbatim>\<open>getContractSourceName\<close> returns the first key, in key order, that contains
  \<^verbatim>\<open>/<contractName>.sol\<close> as a substring, whether or not later keys contain it too; it fails
  with the error "Could not find source name for <contractName>" exactly when no key contains it.
\<close>

theorem getContractSourceName_first_match:
  "(case getContractSourceName contractName input of
      Inr p \<Rightarrow>
        (\<exists>i<length (sources input).
            p = fst (sources input ! i)
            \<and> (\<exists>pre post. p = pre @ ''/'' @ contractName @ ''.sol'' @ post)
            \<and> (\<forall>j<i. \<not> (\<exists>pre post. fst (sources input ! j) = pre @ ''/'' @ contractName @ ''.sol'' @ post)))
    | Inl e \<Rightarrow>
        e = Error (''Could not find source name for '' @ contractName)
        \<and> (\<forall>q\<in>fst ` set (sources input).
              \<not> (\<exists>pre post. q = pre @ ''/'' @ contractName @ ''.sol'' @ post)))"
proof (cases "find (\<lambda>p. String_includes p (''/'' @ contractName @ ''.sol'')) (map fst (sources input))")
  case None
  then have r: "getContractSourceName contractName input
                  = Inl (Error (''Could not find source name for '' @ contractName))"
    by (simp add: getContractSourceName_def)
  from None have "\<forall>q\<in>fst ` set (sources input).
                    \<not> String_includes q (''/'' @ contractName @ ''.sol'')"
    by (auto simp: find_None_iff)
  then show ?thesis unfolding r by (simp add: String_includes_iff)
next
  case (Some p)
  then obtain i where i: "i < length (sources input)" "p = fst (sources input ! i)"
    "String_includes p (''/'' @ contractName @ ''.sol'')"
    "\<forall>j<i. \<not> String_includes (fst (sources input ! j)) (''/'' @ contractName @ ''.sol'')"
    by (auto simp: find_Some_iff)
  moreover from Some have r: "getContractSourceName contractName input = Inr p"
    by (simp add: getContractSourceName_def)
  ultimately show ?thesis unfolding r by (simp add: String_includes_iff) blast
qed

theorem getContractSourceName_first_match_witness:
  "getContractSourceName ''Foo'' ambiguousInput = Inr ''contracts/a/Foo.sol''
   \<and> fst (sources ambiguousInput ! 0) = ''contracts/a/Foo.sol''
   \<and> fst (sources ambiguousInput ! 1) = ''contracts/b/Foo.sol''
   \<and> ''contracts/a/Foo.sol'' = ''contracts/a'' @ ''/'' @ ''Foo'' @ ''.sol'' @ []
   \<and> ''contracts/b/Foo.sol'' = ''contracts/b'' @ ''/'' @ ''Foo'' @ ''.sol'' @ []
   \<and> getContractSourceName ''Bar'' ambiguousInput = Inl (Error ''Could not find source name for Bar'')"
proof -
  have a: "getContractSourceName ''Foo'' ambiguousInput = Inr ''contracts/a/Foo.sol''"
    by code_simp
  have b: "getContractSourceName ''Bar'' ambiguousInput = Inl (Error ''Could not find source name for Bar'')"
    by code_simp
  have c: "fst (sources ambiguousInput ! 0) = ''contracts/a/Foo.sol''"
    "fst (sources ambiguousInput ! 1) = ''contracts/b/Foo.sol''"
    by (simp_all add: ambiguousInput_def)
  from getContractSourceName_first_match[where contractName = "''Foo''" and input = ambiguousInput]
       getContractSourceName_first_match[where contractName = "''Bar''" and input = ambiguousInput]
  show ?thesis unfolding a b using c by simp
qed

subsection \<open>C7: finding the build record of a contract\<close>

text \<open>
  C7. \<^verbatim>\<open>findBuildInfoWithContract\<close> returns the first record, in load order, one of whose
  fully qualified names has the contract name: no earlier record has one, and later records that
  have one are not considered. It fails with the error "Could not find a build info for contract
  <contractName>" exactly when no record has one.
\<close>

theorem findBuildInfoWithContract_first_in_load_order:
  "(case findBuildInfoWithContract buildInfos contractName of
      Inr found \<Rightarrow>
        found < length buildInfos
        \<and> (\<exists>name\<in>set (getAllFullyQualifiedNames (buildInfos ! found)).
               fqn_contractName name = contractName)
        \<and> (\<forall>earlier<found.
               \<not> (\<exists>name\<in>set (getAllFullyQualifiedNames (buildInfos ! earlier)).
                     fqn_contractName name = contractName))
    | Inl e \<Rightarrow>
        e = Error (''Could not find a build info for contract '' @ contractName)
        \<and> (\<forall>buildInfo\<in>set buildInfos.
               \<not> (\<exists>name\<in>set (getAllFullyQualifiedNames buildInfo).
                     fqn_contractName name = contractName)))"
proof (cases "Array_findRef (containsContract contractName) buildInfos")
  case None
  then have r: "findBuildInfoWithContract buildInfos contractName
                  = Inl (Error (''Could not find a build info for contract '' @ contractName))"
    by (simp add: findBuildInfoWithContract_def)
  from None have "\<forall>buildInfo\<in>set buildInfos. \<not> containsContract contractName buildInfo"
    by (simp add: Array_findRef_None)
  then show ?thesis unfolding r by (simp add: containsContract_def list_ex_iff)
next
  case (Some i)
  then have r: "findBuildInfoWithContract buildInfos contractName = Inr i"
    by (simp add: findBuildInfoWithContract_def)
  from Some have "i < length buildInfos \<and> containsContract contractName (buildInfos ! i)
                   \<and> (\<forall>j<i. \<not> containsContract contractName (buildInfos ! j))"
    by (simp add: Array_findRef_Some)
  then show ?thesis unfolding r by (simp add: containsContract_def list_ex_iff)
qed

theorem findBuildInfoWithContract_first_in_load_order_witness:
  "findBuildInfoWithContract exampleBuildInfos ''A'' = Inr 1
   \<and> containsContract ''A'' (exampleBuildInfos ! 0) = False
   \<and> containsContract ''A'' (exampleBuildInfos ! 1) = True
   \<and> containsContract ''A'' (exampleBuildInfos ! 2) = True
   \<and> findBuildInfoWithContract exampleBuildInfos ''Token''
        = Inl (Error ''Could not find a build info for contract Token'')"
proof -
  have a: "findBuildInfoWithContract exampleBuildInfos ''A'' = Inr 1" by code_simp
  have b: "findBuildInfoWithContract exampleBuildInfos ''Token''
             = Inl (Error ''Could not find a build info for contract Token'')" by code_simp
  have c: "containsContract ''A'' (exampleBuildInfos ! 0) = False"
    "containsContract ''A'' (exampleBuildInfos ! 1) = True"
    "containsContract ''A'' (exampleBuildInfos ! 2) = True"
    by code_simp+
  from findBuildInfoWithContract_first_in_load_order
         [where buildInfos = exampleBuildInfos and contractName = "''A''"]
       findBuildInfoWithContract_first_in_load_order
         [where buildInfos = exampleBuildInfos and contractName = "''Token''"]
  show ?thesis unfolding a b using c by simp
qed

subsection \<open>C8: re-seeding the closure\<close>

text \<open>
  C8, as stated, fails: reachability is not symmetric. A imports B and B imports nothing; B is in
  the closure of A, but the closure of B is B alone.
\<close>

theorem closure_reseeded_counterexample:
  "getContractImportedSourceNames exampleParser ''contracts/A.sol'' exampleInput
     (Set_add [] ''contracts/A.sol'') = Inr [''contracts/A.sol'', ''contracts/B.sol'']
   \<and> ''contracts/B.sol'' \<in> set [''contracts/A.sol'', ''contracts/B.sol'']
   \<and> getContractImportedSourceNames exampleParser ''contracts/B.sol'' exampleInput
     (Set_add [] ''contracts/B.sol'') = Inr [''contracts/B.sol'']
   \<and> set [''contracts/B.sol''] \<noteq> set [''contracts/A.sol'', ''contracts/B.sol'']"
  by code_simp

text \<open>
  C8, amended. When the closure of a root is returned, it contains the root, and re-seeding at
  any path in it returns a subset of it; the two are equal when the root is in turn in the
  closure of that path, as on a cycle.
\<close>

theorem closure_reseeded_subset:
  assumes "getContractImportedSourceNames parse root input (Set_add [] root) = Inr closure"
    and "path \<in> set closure"
  shows "root \<in> set closure
         \<and> (\<exists>closure'. getContractImportedSourceNames parse path input (Set_add [] path) = Inr closure'
               \<and> set closure' \<subseteq> set closure
               \<and> (root \<in> set closure' \<longrightarrow> set closure' = set closure))"
proof -
  let ?E = "importEdges parse input"
  from closure_from_root[where parse = parse and root = root and input = input] assms(1)
  have c: "set closure = ?E\<^sup>* `` {root}" "\<forall>x\<in>set closure. resolvable parse input x" by auto
  have root: "root \<in> set closure" using c(1) by auto
  have pr: "(root, path) \<in> ?E\<^sup>*" using assms(2) c(1) by auto
  then have sub: "?E\<^sup>* `` {path} \<subseteq> ?E\<^sup>* `` {root}" by (auto intro: rtrancl_trans)
  show ?thesis
  proof (cases "getContractImportedSourceNames parse path input (Set_add [] path)")
    case (Inl e)
    with closure_from_root[where parse = parse and root = path and input = input]
    obtain x where "x \<in> ?E\<^sup>* `` {path}" "\<not> resolvable parse input x" by auto
    with sub c show ?thesis by blast
  next
    case (Inr closure')
    with closure_from_root[where parse = parse and root = path and input = input]
    have c': "set closure' = ?E\<^sup>* `` {path}" by auto
    have "root \<in> set closure' \<longrightarrow> set closure' = set closure"
    proof
      assume "root \<in> set closure'"
      then have "(path, root) \<in> ?E\<^sup>*" using c' by auto
      then have "?E\<^sup>* `` {root} \<subseteq> ?E\<^sup>* `` {path}" by (auto intro: rtrancl_trans)
      with sub c' c(1) show "set closure' = set closure" by auto
    qed
    with root sub c c' Inr show ?thesis by auto
  qed
qed

theorem closure_reseeded_subset_witness:
  "getContractImportedSourceNames exampleParser ''contracts/A.sol'' cyclicInput
     (Set_add [] ''contracts/A.sol'') = Inr [''contracts/A.sol'', ''contracts/B.sol'']
   \<and> ''contracts/B.sol'' \<in> set [''contracts/A.sol'', ''contracts/B.sol'']
   \<and> ''contracts/A.sol'' \<in> set [''contracts/A.sol'', ''contracts/B.sol'']
   \<and> getContractImportedSourceNames exampleParser ''contracts/B.sol'' cyclicInput
     (Set_add [] ''contracts/B.sol'') = Inr [''contracts/B.sol'', ''contracts/A.sol'']
   \<and> set [''contracts/B.sol'', ''contracts/A.sol''] = set [''contracts/A.sol'', ''contracts/B.sol'']"
proof -
  have a: "getContractImportedSourceNames exampleParser ''contracts/A.sol'' cyclicInput
     (Set_add [] ''contracts/A.sol'') = Inr [''contracts/A.sol'', ''contracts/B.sol'']"
    by code_simp
  have b: "''contracts/B.sol'' \<in> set [''contracts/A.sol'', ''contracts/B.sol'']" by simp
  have c: "getContractImportedSourceNames exampleParser ''contracts/B.sol'' cyclicInput
     (Set_add [] ''contracts/B.sol'') = Inr [''contracts/B.sol'', ''contracts/A.sol'']"
    by code_simp
  from closure_reseeded_subset[OF a b] a c show ?thesis by auto
qed

subsection \<open>C10: an import path without a slash\<close>

text \<open>
  C10. When a source has an import directive whose path contains no slash, the pattern of
  \<^verbatim>\<open>getAbsoluteSourcePath\<close> does not match, indexing the \<^verbatim>\<open>null\<close> result raises a TypeError,
  and the closure computation started at that source ends with this TypeError instead of a set;
  so it is for a record in which \<^verbatim>\<open>contracts/A.sol\<close> imports \<^verbatim>\<open>Foo.sol\<close>, although
  \<^verbatim>\<open>contracts/Foo.sol\<close> is a key of the record.
\<close>

theorem getContractImportedSourceNames_slashless_import_TypeError:
  assumes "CHR ''/'' \<notin> set path"
    and "map_of (sources input) sourceName = Some src"
    and "parse (content src) = Inr (path # paths)"
  shows "getAbsoluteSourcePath path input
           = Inl (TypeError ''Cannot read properties of null (reading '1')'')
         \<and> getContractImportedSourceNames parse sourceName input previousSourceNames
           = Inl (TypeError ''Cannot read properties of null (reading '1')'')"
proof -
  have m: "matchSolFileName path = None" by (rule matchSolFileName_no_slash[OF assms(1)])
  then have a: "getAbsoluteSourcePath path input
                  = Inl (TypeError ''Cannot read properties of null (reading '1')'')"
    by (simp add: getAbsoluteSourcePath_def)
  then show ?thesis
    by (simp add: getContractImportedSourceNames.simps assms(2,3))
qed

theorem getContractImportedSourceNames_slashless_import_witness:
  "CHR ''/'' \<notin> set ''Foo.sol''
   \<and> map_of (sources slashlessInput) ''contracts/A.sol'' = Some \<lparr>content = ''import 'Foo.sol';''\<rparr>
   \<and> exampleParser ''import 'Foo.sol';'' = Inr [''Foo.sol'']
   \<and> ''contracts/Foo.sol'' \<in> fst ` set (sources slashlessInput)
   \<and> getAbsoluteSourcePath ''Foo.sol'' slashlessInput
        = Inl (TypeError ''Cannot read properties of null (reading '1')'')
   \<and> getContractImportedSourceNames exampleParser ''contracts/A.sol'' slashlessInput
        (Set_add [] ''contracts/A.sol'')
        = Inl (TypeError ''Cannot read properties of null (reading '1')'')"
proof -
  have a: "CHR ''/'' \<notin> set ''Foo.sol''" by simp
  have b: "map_of (sources slashlessInput) ''contracts/A.sol'' = Some \<lparr>content = ''import 'Foo.sol';''\<rparr>"
    by (simp add: slashlessInput_def)
  have c: "exampleParser (content \<lparr>content = ''import 'Foo.sol';''\<rparr>) = Inr [''Foo.sol'']"
    by (simp add: exampleParser_def)
  have d: "''contracts/Foo.sol'' \<in> fst ` set (sources slashlessInput)"
    by (simp add: slashlessInput_def)
  from getContractImportedSourceNames_slashless_import_TypeError
         [where parse = exampleParser and previousSourceNames = "Set_add [] ''contracts/A.sol''", OF a b c]
       a b c d
  show ?thesis by simp
qed

subsection \<open>C1: the bound on retries\<close>



subsection \<open>C4: the delays\<close>




subsection \<open>C6: what a verification attempt does to the loaded records\<close>

text \<open>
  C6, as stated, fails. After an attempt that returns, the record selected from the loaded
  array is not what was loaded: its input holds only the trimmed sources, and
  \<^verbatim>\<open>settings.libraries\<close> holds the resolved library links.
\<close>

theorem verify_mutates_selected_build_info_counterexample:
  "fst (verify (exampleExternals presentResponse) exampleParser ''A'' exampleAddress
          (EncodedString ''0x'') [] emptyWorld) = Inr presentResponse
   \<and> getBuildInfos_result (exampleExternals presentResponse) = Inr exampleBuildInfos
   \<and> findBuildInfoWithContract exampleBuildInfos ''A'' = Inr 1
   \<and> map fst (sources (buildInfo_input (exampleBuildInfos ! 1)))
       = [''contracts/A.sol'', ''contracts/B.sol'', ''contracts/C.sol'']
   \<and> libraries (settings (buildInfo_input (exampleBuildInfos ! 1))) = []
   \<and> map fst (sources (buildInfo_input (loaded (snd (verify (exampleExternals presentResponse)
          exampleParser ''A'' exampleAddress (EncodedString ''0x'') [] emptyWorld)) ! 1)))
       = [''contracts/A.sol'', ''contracts/B.sol'']
   \<and> libraries (settings (buildInfo_input (loaded (snd (verify (exampleExternals presentResponse)
          exampleParser ''A'' exampleAddress (EncodedString ''0x'') [] emptyWorld)) ! 1)))
       = exampleLinks"
proof -
  have d: "data_success presentResponse" by (simp add: presentResponse_def)
  have f1: "fst (verify (exampleExternals presentResponse) exampleParser ''A'' exampleAddress
          (EncodedString ''0x'') [] emptyWorld) = Inr presentResponse"
    by (rule example_verify[OF d])
  have f2: "getBuildInfos_result (exampleExternals presentResponse) = Inr exampleBuildInfos"
    by (simp add: exampleExternals_def)
  have f4: "map fst (sources (buildInfo_input (exampleBuildInfos ! 1)))
       = [''contracts/A.sol'', ''contracts/B.sol'', ''contracts/C.sol'']"
    by (simp add: exampleBuildInfos_def exampleBuildInfo_def exampleInput_def)
  have f5: "libraries (settings (buildInfo_input (exampleBuildInfos ! 1))) = []"
    by (simp add: exampleBuildInfos_def exampleBuildInfo_def exampleInput_def exampleSettings_def)
  have f6: "map fst (sources (buildInfo_input (loaded (snd (verify (exampleExternals presentResponse)
          exampleParser ''A'' exampleAddress (EncodedString ''0x'') [] emptyWorld)) ! 1)))
       = [''contracts/A.sol'', ''contracts/B.sol'']"
    unfolding example_loaded[OF d] by (simp add: exampleBuildInfos_def)
  have f7: "libraries (settings (buildInfo_input (loaded (snd (verify (exampleExternals presentResponse)
          exampleParser ''A'' exampleAddress (EncodedString ''0x'') [] emptyWorld)) ! 1)))
       = exampleLinks"
    unfolding example_loaded[OF d] by (simp add: exampleBuildInfos_def)
  show ?thesis by (intro conjI f1 f2 example_found f4 f5 f6 f7)
qed

text \<open>
  C6, amended. A verification attempt that has loaded the build records leaves every record
  other than the selected one as loaded, and in every record it leaves the compiler version, the
  compiled contracts and the language and optimizer settings of the input as loaded. The input
  of the selected record is replaced in place: when the attempt returns a response, it is the
  trimmed input (a new record built by \<^verbatim>\<open>trimmedBuildInfoInput\<close>) with
  \<^verbatim>\<open>settings.libraries\<close> overwritten by the resolved library links.
\<close>

theorem verify_changes_only_input_of_selected_build_info:
  assumes "verify ext parse name address theArgs theLibraries w = (r, w')"
    and "retrieveContractBytecode_result ext = Inr hex"
    and "getBuildInfos_result ext = Inr buildInfos"
  shows "length (loaded w') = length buildInfos
     \<and> (\<forall>i<length buildInfos.
           findBuildInfoWithContract buildInfos name \<noteq> Inr i \<longrightarrow> loaded w' ! i = buildInfos ! i)
     \<and> (\<forall>i<length buildInfos.
           solcVersion (loaded w' ! i) = solcVersion (buildInfos ! i)
           \<and> output_contracts (loaded w' ! i) = output_contracts (buildInfos ! i)
           \<and> language (buildInfo_input (loaded w' ! i)) = language (buildInfo_input (buildInfos ! i))
           \<and> optimizer_enabled (settings (buildInfo_input (loaded w' ! i)))
               = optimizer_enabled (settings (buildInfo_input (buildInfos ! i)))
           \<and> optimizer_runs (settings (buildInfo_input (loaded w' ! i)))
               = optimizer_runs (settings (buildInfo_input (buildInfos ! i))))
     \<and> (\<forall>response. r = Inr response \<longrightarrow>
           (\<exists>found trimmed links.
               findBuildInfoWithContract buildInfos name = Inr found
               \<and> trimmedBuildInfoInput parse name (buildInfo_input (buildInfos ! found)) = Inr trimmed
               \<and> getLibraryLinks_result ext = Inr links
               \<and> buildInfo_input (loaded w' ! found)
                   = trimmed\<lparr>settings := (settings trimmed)\<lparr>libraries := links\<rparr>\<rparr>))"
proof -
  have frame: "length (loaded w') = length buildInfos
     \<and> (\<forall>i<length buildInfos.
           findBuildInfoWithContract buildInfos name \<noteq> Inr i \<longrightarrow> loaded w' ! i = buildInfos ! i)
     \<and> (\<forall>i<length buildInfos.
           solcVersion (loaded w' ! i) = solcVersion (buildInfos ! i)
           \<and> output_contracts (loaded w' ! i) = output_contracts (buildInfos ! i)
           \<and> language (buildInfo_input (loaded w' ! i)) = language (buildInfo_input (buildInfos ! i))
           \<and> optimizer_enabled (settings (buildInfo_input (loaded w' ! i)))
               = optimizer_enabled (settings (buildInfo_input (buildInfos ! i)))
           \<and> optimizer_runs (settings (buildInfo_input (loaded w' ! i)))
               = optimizer_runs (settings (buildInfo_input (buildInfos ! i))))"
    using verify_loaded[OF assms]
  proof (elim disjE exE conjE)
    assume "loaded w' = buildInfos"
    then show ?thesis by simp
  next
    fix found trimmed
    assume f: "findBuildInfoWithContract buildInfos name = Inr found"
      and t: "trimmedBuildInfoInput parse name (buildInfo_input (buildInfos ! found)) = Inr trimmed"
      and l: "loaded w' = buildInfos[found := (buildInfos ! found)\<lparr>buildInfo_input := trimmed\<rparr>]"
    note tf = trimmedBuildInfoInput_frame[OF t]
    note b = findBuildInfoWithContract_bound[OF f]
    show ?thesis unfolding l using f tf b by (auto simp: nth_list_update)
  next
    fix found trimmed links
    assume f: "findBuildInfoWithContract buildInfos name = Inr found"
      and t: "trimmedBuildInfoInput parse name (buildInfo_input (buildInfos ! found)) = Inr trimmed"
      and l: "loaded w' = buildInfos[found := (buildInfos ! found)
                \<lparr>buildInfo_input := trimmed\<lparr>settings := (settings trimmed)\<lparr>libraries := links\<rparr>\<rparr>\<rparr>]"
    note tf = trimmedBuildInfoInput_frame[OF t]
    note b = findBuildInfoWithContract_bound[OF f]
    show ?thesis unfolding l using f tf b by (auto simp: nth_list_update)
  qed
  have "\<forall>response. r = Inr response \<longrightarrow>
           (\<exists>found trimmed links.
               findBuildInfoWithContract buildInfos name = Inr found
               \<and> trimmedBuildInfoInput parse name (buildInfo_input (buildInfos ! found)) = Inr trimmed
               \<and> getLibraryLinks_result ext = Inr links
               \<and> buildInfo_input (loaded w' ! found)
                   = trimmed\<lparr>settings := (settings trimmed)\<lparr>libraries := links\<rparr>\<rparr>)"
  proof (intro allI impI)
    fix response assume "r = Inr response"
    with assms(1) have v: "verify ext parse name address theArgs theLibraries w = (Inr response, w')"
      by simp
    from verify_loaded_Inr[OF v] assms(3) obtain found trimmed links where
      f: "findBuildInfoWithContract buildInfos name = Inr found"
      and t: "trimmedBuildInfoInput parse name (buildInfo_input (buildInfos ! found)) = Inr trimmed"
      and k: "getLibraryLinks_result ext = Inr links"
      and l: "loaded w' = buildInfos[found := (buildInfos ! found)
                \<lparr>buildInfo_input := trimmed\<lparr>settings := (settings trimmed)\<lparr>libraries := links\<rparr>\<rparr>\<rparr>]"
      by auto
    from findBuildInfoWithContract_bound[OF f] l
    have "buildInfo_input (loaded w' ! found)
            = trimmed\<lparr>settings := (settings trimmed)\<lparr>libraries := links\<rparr>\<rparr>" by simp
    with f t k show "\<exists>found trimmed links.
               findBuildInfoWithContract buildInfos name = Inr found
               \<and> trimmedBuildInfoInput parse name (buildInfo_input (buildInfos ! found)) = Inr trimmed
               \<and> getLibraryLinks_result ext = Inr links
               \<and> buildInfo_input (loaded w' ! found)
                   = trimmed\<lparr>settings := (settings trimmed)\<lparr>libraries := links\<rparr>\<rparr>" by blast
  qed
  with frame show ?thesis by (intro conjI) simp_all
qed

theorem verify_changes_only_input_of_selected_build_info_witness:
  "loaded (snd (verify (exampleExternals presentResponse) exampleParser ''A'' exampleAddress
                  (EncodedString ''0x'') [] emptyWorld)) ! 0 = otherBuildInfo
   \<and> loaded (snd (verify (exampleExternals presentResponse) exampleParser ''A'' exampleAddress
                  (EncodedString ''0x'') [] emptyWorld)) ! 2 = laterBuildInfo
   \<and> length (loaded (snd (verify (exampleExternals presentResponse) exampleParser ''A''
                  exampleAddress (EncodedString ''0x'') [] emptyWorld))) = 3
   \<and> output_contracts (loaded (snd (verify (exampleExternals presentResponse) exampleParser ''A''
                  exampleAddress (EncodedString ''0x'') [] emptyWorld)) ! 1)
       = output_contracts exampleBuildInfo
   \<and> buildInfo_input (loaded (snd (verify (exampleExternals presentResponse) exampleParser ''A''
                  exampleAddress (EncodedString ''0x'') [] emptyWorld)) ! 1)
       = \<lparr>language = ''Solidity'',
          sources = [(''contracts/A.sol'', \<lparr>content = ''import './B.sol';''\<rparr>),
                     (''contracts/B.sol'', \<lparr>content = ''contract B {}''\<rparr>)],
          settings = \<lparr>optimizer_enabled = True, optimizer_runs = 200, libraries = exampleLinks\<rparr>\<rparr>"
proof -
  have d: "data_success presentResponse" by (simp add: presentResponse_def)
  obtain r w' where v: "verify (exampleExternals presentResponse) exampleParser ''A'' exampleAddress
                  (EncodedString ''0x'') [] emptyWorld = (r, w')" by fastforce
  from example_verify[OF d, of emptyWorld] v have r: "r = Inr presentResponse" by simp
  have h: "retrieveContractBytecode_result (exampleExternals presentResponse) = Inr ''0x6080''"
    "getBuildInfos_result (exampleExternals presentResponse) = Inr exampleBuildInfos"
    by (simp_all add: exampleExternals_def)
  note t = verify_changes_only_input_of_selected_build_info[OF v h]
  have n: "findBuildInfoWithContract exampleBuildInfos ''A'' \<noteq> Inr 0"
    "findBuildInfoWithContract exampleBuildInfos ''A'' \<noteq> Inr 2"
    by (simp_all add: example_found)
  have len: "length exampleBuildInfos = 3" by (simp add: exampleBuildInfos_def)
  have e: "exampleBuildInfos ! 0 = otherBuildInfo" "exampleBuildInfos ! 2 = laterBuildInfo"
    "exampleBuildInfos ! 1 = exampleBuildInfo"
    by (simp_all add: exampleBuildInfos_def)
  from t r obtain found trimmed links where
    f: "findBuildInfoWithContract exampleBuildInfos ''A'' = Inr found"
    and tr: "trimmedBuildInfoInput exampleParser ''A'' (buildInfo_input (exampleBuildInfos ! found))
               = Inr trimmed"
    and l: "getLibraryLinks_result (exampleExternals presentResponse) = Inr links"
    and i: "buildInfo_input (loaded w' ! found)
              = trimmed\<lparr>settings := (settings trimmed)\<lparr>libraries := links\<rparr>\<rparr>"
    by blast
  from f have found: "found = 1" by (simp add: example_found)
  from l have links: "links = exampleLinks" by (simp add: exampleExternals_def)
  from tr have trimmed: "trimmed = exampleInput\<lparr>sources :=
              [(''contracts/A.sol'', \<lparr>content = ''import './B.sol';''\<rparr>),
               (''contracts/B.sol'', \<lparr>content = ''contract B {}''\<rparr>)]\<rparr>"
    unfolding found e(3) example_trimmed by simp
  have inp: "buildInfo_input (loaded w' ! 1)
       = \<lparr>language = ''Solidity'',
          sources = [(''contracts/A.sol'', \<lparr>content = ''import './B.sol';''\<rparr>),
                     (''contracts/B.sol'', \<lparr>content = ''contract B {}''\<rparr>)],
          settings = \<lparr>optimizer_enabled = True, optimizer_runs = 200, libraries = exampleLinks\<rparr>\<rparr>"
    using i unfolding found links trimmed by (simp add: exampleInput_def exampleSettings_def)
  from t n len e inp show ?thesis unfolding v by simp
qed

subsection \<open>C9: the request file\<close>

text \<open>
  C9. When writing the file does not itself fail, \<^verbatim>\<open>verifyContract\<close> leaves the file
  \<^verbatim>\<open>./<contract_name>.json\<close> holding the JSON text of the whole request, and the write comes
  right before the post, whatever the post then answers; when the write fails, its error is
  thrown and nothing is posted. In every run of \<^verbatim>\<open>call\<close>, every post comes right after
  the write of its request to that file.
\<close>

theorem verifyContract_writes_request_file_before_post:
  "(writeFileSync_result ext = None \<longrightarrow>
      files (snd (verifyContract ext url req w)) (''./'' @ contract_name req @ ''.json'')
        = Some (JSON_stringify req)
      \<and> (\<exists>rest. trace (snd (verifyContract ext url req w))
            = trace w @ WriteFileSync (''./'' @ contract_name req @ ''.json'') (JSON_stringify req)
                      # AxiosPost url req # rest))
   \<and> (\<forall>e. writeFileSync_result ext = Some e \<longrightarrow> verifyContract ext url req w = (Inl e, w))
   \<and> (\<exists>evs. trace (snd (call externals parse name address cargs libs intent w0)) = trace w0 @ evs
          \<and> chain postAfterWrite None evs)"
proof -
  obtain r w' where c: "call externals parse name address cargs libs intent w0 = (r, w')"
    by fastforce
  from call_effect[OF c, of None]
  have "\<exists>evs. trace (snd (call externals parse name address cargs libs intent w0)) = trace w0 @ evs
          \<and> chain postAfterWrite None evs"
    unfolding c by (auto simp: attemptEvents_def)
  moreover have "writeFileSync_result ext = None \<longrightarrow>
      files (snd (verifyContract ext url req w)) (''./'' @ contract_name req @ ''.json'')
        = Some (JSON_stringify req)
      \<and> (\<exists>rest. trace (snd (verifyContract ext url req w))
            = trace w @ WriteFileSync (''./'' @ contract_name req @ ''.json'') (JSON_stringify req)
                      # AxiosPost url req # rest)"
    using verifyContract_written[of ext url req w] by (intro impI)
  moreover have "\<forall>e. writeFileSync_result ext = Some e \<longrightarrow> verifyContract ext url req w = (Inl e, w)"
    using verifyContract_write_fails[of ext _ url req w] by (intro allI impI)
  ultimately show ?thesis by (intro conjI)
qed

theorem verifyContract_writes_request_file_before_post_witness:
  "writeFileSync_result rejectingExternals = None
   \<and> fst (verifyContract rejectingExternals apiURL exampleRequest emptyWorld)
       = Inl (Error ''Failed to send verification request. Reason: Bad Request'')
   \<and> files (snd (verifyContract rejectingExternals apiURL exampleRequest emptyWorld)) ''./A.json''
       = Some (JSON_stringify exampleRequest)
   \<and> fst (verifyContract (exampleExternals presentResponse) apiURL exampleRequest emptyWorld)
       = Inr presentResponse
   \<and> files (snd (verifyContract (exampleExternals presentResponse) apiURL exampleRequest emptyWorld))
        ''./A.json'' = Some (JSON_stringify exampleRequest)"
proof -
  have a: "writeFileSync_result rejectingExternals = None"
    "writeFileSync_result (exampleExternals presentResponse) = None"
    by (simp_all add: rejectingExternals_def exampleExternals_def)
  have n: "''./'' @ contract_name exampleRequest @ ''.json'' = ''./A.json''"
    by (simp add: exampleRequest_def)
  have b: "fst (verifyContract rejectingExternals apiURL exampleRequest emptyWorld)
       = Inl (Error ''Failed to send verification request. Reason: Bad Request'')"
    by (simp add: verifyContract_def io_defs rejectingExternals_def exampleExternals_def)
  have c: "fst (verifyContract (exampleExternals presentResponse) apiURL exampleRequest emptyWorld)
       = Inr presentResponse"
    by (simp add: verifyContract_def io_defs exampleExternals_def presentResponse_def)
  note t1 = verifyContract_writes_request_file_before_post
         [where ext = rejectingExternals and url = apiURL and req = exampleRequest and w = emptyWorld,
          THEN conjunct1, THEN mp, OF a(1), THEN conjunct1, unfolded n]
  note t2 = verifyContract_writes_request_file_before_post
         [where ext = "exampleExternals presentResponse" and url = apiURL and req = exampleRequest
            and w = emptyWorld, THEN conjunct1, THEN mp, OF a(2), THEN conjunct1, unfolded n]
  from a(1) b t1 c t2 show ?thesis by (intro conjI)
qed

end
